theory Spec2Isabelle
  imports Main
begin

section \<open>The VoIP call session of \<open>client/components/voip/VoIPUser.ts\<close>\<close>

text \<open>
  The class \<open>VoIPUser\<close> drives a SIP user agent: it is a mutable object whose methods are
  called by the UI (\<open>register\<close>, \<open>unregister\<close>, \<open>acceptCall\<close>, \<open>rejectCall\<close>, \<open>endCall\<close>)
  and by the signalling transport (\<open>onConnect\<close>, \<open>onDisconnect\<close>, \<open>onInvite\<close>, \<open>onAccept\<close>,
  \<open>onReject\<close>, and the state-change listener of a session). The object is modelled as a
  record that every method takes and returns. A method that can throw returns the outcome
  together with the object, because the fields written before the \<open>throw\<close> stay written.
  What the object sends out (events to its subscribers, commands to the transport and to the
  media wrapper) is appended to the field \<open>effects\<close>, in the order of the source. Calls of the
  logger are left out: they touch nothing else.

  Three things are taken from the environment. The subscribers of the UI receive an event
  and do not call back into the object while it is being emitted. An \<open>async\<close> method that
  throws rejects the promise it returns: the model gives the error as the outcome of the call.
  A command sent to the transport is recorded, and what the transport then does comes back
  as a later call (\<open>onAccept\<close>, \<open>onReject\<close>, a state change of a session).
\<close>

subsection \<open>Enumerations and data declared outside the file\<close>

text \<open>Modelled from the spec: the type \<open>CallStates\<close> of \<open>definitions/CallStates\<close>, with the seven
  values the spec lists and the source assigns.\<close>

datatype CallStates =
  IDLE | SERVER_CONNECTED | REGISTERED | UNREGISTERED | OFFER_RECEIVED | ANSWER_SENT | IN_CALL

text \<open>Modelled from the spec: the enumeration \<open>Operation\<close> of \<open>Operations\<close>.\<close>

datatype Operation = OP_NONE | OP_CONNECT | OP_REGISTER | OP_UNREGISTER | OP_PROCESS_INVITE

text \<open>Modelled from the spec: the enumeration \<open>UserState\<close> of \<open>definitions/UserState\<close>; its value
  \<open>IDLE\<close> is written \<open>UserState_IDLE\<close>, the name \<open>IDLE\<close> being the call state.\<close>

datatype UserState = UserState_IDLE | UAS

text \<open>The session states of the SIP library, as the \<open>switch\<close> statements of the source list them.
  The \<open>default\<close> branches of these statements, for a value outside the enumeration, have no
  counterpart here.\<close>

datatype SessionState = Initial | Establishing | Established | Terminating | Terminated

text \<open>Modelled from the spec: \<open>ICallerInfo\<close> of \<open>definitions/ICallerInfo\<close>, the three fields that
  \<open>handleIncomingCall\<close> fills.\<close>

record ICallerInfo =
  callerId :: string
  callerName :: string
  host :: string

text \<open>Modelled from the spec: \<open>VoIpCallerInfo\<close> of \<open>definitions/VoIpCallerInfo\<close>, the value the
  accessor \<open>callerInfo\<close> returns; the field \<open>callerInfo\<close> is present in one of its two shapes only.\<close>

record VoIpCallerInfo =
  state :: CallStates
  callerInfo_of :: "ICallerInfo option"
  userState_of :: UserState

text \<open>An inbound invitation is an object of the SIP library: \<open>ref\<close> is its identity, the other
  fields are what the source reads from \<open>remoteIdentity\<close> (\<open>uri.user\<close> may be undefined).\<close>

record Invitation =
  ref :: nat
  uri_user :: "string option"
  displayName :: string
  uri_host :: string

text \<open>A \<open>Session\<close> is an \<open>Invitation\<close> or a session of another class; \<open>instanceof Invitation\<close> is
  the test for the first constructor, and \<open>!==\<close> on two sessions is disequality.\<close>

datatype Session = Inbound Invitation | OtherSession nat

text \<open>A session description handler is the web one, with its remote media stream if it has
  one, or a handler of another class.\<close>

datatype SessionDescriptionHandler = WebSDH "nat option" | ForeignSDH

text \<open>The two fields of a session that the source reads and the SIP library writes.\<close>

record sip_sessions =
  state_of :: "Session \<Rightarrow> SessionState"
  sessionDescriptionHandler :: "Session \<Rightarrow> SessionDescriptionHandler option"

text \<open>Modelled from the spec: \<open>IMediaStreamRenderer\<close> and \<open>VoIPUserConfiguration\<close> of
  \<open>VoIPUserConfiguration\<close>; media elements and ICE servers are opaque.\<close>

record IMediaStreamRenderer =
  remoteMediaElement :: "nat option"

record VoIPUserConfiguration =
  authUserName :: string
  authPassword :: string
  sipRegistrarHostnameOrIP :: string
  webSocketURI :: string
  iceServers :: "string list"
  enableVideo :: "bool option"

datatype UserAgent = UserAgent string

datatype Registerer = Registerer UserAgent

text \<open>Modelled from the spec: the events of \<open>definitions/VoipEvents\<close>; the errors that the
  transport supplies are opaque strings.\<close>

datatype VoipEvents =
  connected | connectionerror string | registered | unregistered
  | registrationerror string | unregistrationerror string
  | incomingcall ICallerInfo | callestablished | callterminated | stateChanged

datatype effect =
  Emitted VoipEvents
  | UserAgent_start
  | Registerer_register Registerer
  | Registerer_unregister Registerer
  | Invitation_accept Session bool bool
  | Invitation_reject Session
  | Session_bye Session
  | Stream_init nat
  | Stream_onTrackAdded
  | Stream_onTrackRemoved
  | Stream_play
  | Stream_clear

text \<open>The errors the source throws, one constructor for each message.\<close>

datatype error =
  CallerInfoInvalidState
  | SessionDoesNotExist
  | SDHNotWebSessionDescriptionHandler
  | RemoteMediaStreamUndefined
  | SessionNotInstanceOfInvitation
  | SomethingWentWrong
  | IncorrectCallState CallStates

subsection \<open>The object\<close>

text \<open>
  The fields of the class. \<open>stored_callerInfo\<close> is the private \<open>_callerInfo\<close>; \<open>callState\<close>,
  \<open>opInProgress\<close> and \<open>userState\<close> are the private fields behind the accessors of the same
  names. \<open>stateChangeListeners\<close> holds the listeners that \<open>setupSessionEventHandlers\<close> has added:
  the session a listener is attached to, and the session its closure has captured.
\<close>

record VoIPUser =
  isReady :: bool
  config :: VoIPUserConfiguration
  session :: "Session option"
  remoteStream :: "nat option"
  userAgent :: "UserAgent option"
  registerer :: "Registerer option"
  mediaStreamRendered :: "IMediaStreamRenderer option"
  callState :: CallStates
  stored_callerInfo :: "ICallerInfo option"
  userState :: UserState
  opInProgress :: Operation
  stateChangeListeners :: "(Session \<times> Session) list"
  effects :: "effect list"

text \<open>The constructor; it subscribes the object to its own events \<open>connected\<close> and
  \<open>connectionerror\<close>, which \<open>emit\<close> below carries out.\<close>

definition new :: "VoIPUserConfiguration \<Rightarrow> IMediaStreamRenderer option \<Rightarrow> VoIPUser" where
  "new cfg mediaRenderer =
     \<lparr> isReady = False, config = cfg, session = None, remoteStream = None,
       userAgent = None, registerer = None, mediaStreamRendered = mediaRenderer,
       callState = IDLE, stored_callerInfo = None, userState = UserState_IDLE,
       opInProgress = OP_NONE, stateChangeListeners = [], effects = [] \<rparr>"

definition emit :: "VoipEvents \<Rightarrow> VoIPUser \<Rightarrow> VoIPUser" where
  "emit ev s =
     (let s1 = (case ev of
                  connected \<Rightarrow> s\<lparr>isReady := True\<rparr>
                | connectionerror e \<Rightarrow> s\<lparr>isReady := False\<rparr>
                | _ \<Rightarrow> s)
      in s1\<lparr>effects := effects s1 @ [Emitted ev]\<rparr>)"

text \<open>The accessor \<open>callerInfo\<close>.\<close>

definition callerInfo :: "VoIPUser \<Rightarrow> error + VoIpCallerInfo" where
  "callerInfo s =
     (if callState s = IN_CALL then
        (case stored_callerInfo s of
           None \<Rightarrow> Inl CallerInfoInvalidState
         | Some ci \<Rightarrow> Inr \<lparr>state = IN_CALL, callerInfo_of = Some ci, userState_of = userState s\<rparr>)
      else Inr \<lparr>state = callState s, callerInfo_of = None, userState_of = userState s\<rparr>)"

subsection \<open>The delegate of register and unregister requests\<close>

definition onAccept :: "VoIPUser \<Rightarrow> VoIPUser" where
  "onAccept s =
     (let s1 = (if opInProgress s = OP_REGISTER
                then emit stateChanged (emit registered (s\<lparr>callState := REGISTERED\<rparr>))
                else s)
      in if opInProgress s1 = OP_UNREGISTER
         then emit stateChanged (emit unregistered (s1\<lparr>callState := UNREGISTERED\<rparr>))
         else s1)"

definition onReject :: "string \<Rightarrow> VoIPUser \<Rightarrow> VoIPUser" where
  "onReject err s =
     (let s1 = (if opInProgress s = OP_REGISTER then emit (registrationerror err) s else s)
      in if opInProgress s1 = OP_UNREGISTER then emit (unregistrationerror err) s1 else s1)"

subsection \<open>Sessions\<close>

definition setupRemoteMedia :: "sip_sessions \<Rightarrow> VoIPUser \<Rightarrow> (error + unit) \<times> VoIPUser" where
  "setupRemoteMedia h s =
     (case session s of
        None \<Rightarrow> (Inl SessionDoesNotExist, s)
      | Some sess \<Rightarrow>
          (case sessionDescriptionHandler h sess of
             None \<Rightarrow> (Inr (), s)
           | Some ForeignSDH \<Rightarrow> (Inl SDHNotWebSessionDescriptionHandler, s)
           | Some (WebSDH None) \<Rightarrow> (Inl RemoteMediaStreamUndefined, s)
           | Some (WebSDH (Some stream)) \<Rightarrow>
               (let s1 = s\<lparr>remoteStream := Some stream\<rparr>;
                    mediaElement = (case mediaStreamRendered s1 of
                                      None \<Rightarrow> None
                                    | Some r \<Rightarrow> remoteMediaElement r)
                in case mediaElement of
                     None \<Rightarrow> (Inr (), s1)
                   | Some el \<Rightarrow>
                       (Inr (), s1\<lparr>effects := effects s1 @
                          [Stream_init el, Stream_onTrackAdded, Stream_onTrackRemoved,
                           Stream_play]\<rparr>))))"

text \<open>\<open>this.remoteStream?.clear()\<close>: the wrapper is cleared if there is one; the field keeps it.\<close>

definition clearRemoteStream :: "VoIPUser \<Rightarrow> VoIPUser" where
  "clearRemoteStream s =
     (case remoteStream s of
        None \<Rightarrow> s
      | Some r \<Rightarrow> s\<lparr>effects := effects s @ [Stream_clear]\<rparr>)"

text \<open>The listener that \<open>setupSessionEventHandlers session\<close> adds: \<open>sess\<close> is the session its
  closure has captured, \<open>st\<close> the state the library reports.\<close>

definition sessionListener ::
  "sip_sessions \<Rightarrow> Session \<Rightarrow> SessionState \<Rightarrow> VoIPUser \<Rightarrow> (error + unit) \<times> VoIPUser" where
  "sessionListener h sess st s =
     (if session s \<noteq> Some sess then (Inr (), s)
      else case st of
        Initial \<Rightarrow> (Inr (), s)
      | Establishing \<Rightarrow> (Inr (), s)
      | Established \<Rightarrow>
          (case setupRemoteMedia h (s\<lparr>opInProgress := OP_NONE, callState := IN_CALL\<rparr>) of
             (Inl e, s1) \<Rightarrow> (Inl e, s1)
           | (Inr u, s1) \<Rightarrow> (Inr (), emit stateChanged (emit callestablished s1)))
      | Terminating \<Rightarrow>
          (Inr (), emit stateChanged (clearRemoteStream (emit callterminated
                     (s\<lparr>session := None, callState := REGISTERED, opInProgress := OP_NONE,
                        userState := UserState_IDLE\<rparr>))))
      | Terminated \<Rightarrow>
          (Inr (), emit stateChanged (clearRemoteStream (emit callterminated
                     (s\<lparr>session := None, callState := REGISTERED, opInProgress := OP_NONE,
                        userState := UserState_IDLE\<rparr>)))))"

definition setupSessionEventHandlers :: "Session \<Rightarrow> VoIPUser \<Rightarrow> VoIPUser" where
  "setupSessionEventHandlers sess s =
     (case session s of
        None \<Rightarrow> s
      | Some cur \<Rightarrow> s\<lparr>stateChangeListeners := stateChangeListeners s @ [(cur, sess)]\<rparr>)"

text \<open>The SIP library reports a new state of the session \<open>x\<close>: the listeners attached to \<open>x\<close>
  run in the order they were added, and a listener that throws ends the delivery.\<close>

fun deliver ::
  "sip_sessions \<Rightarrow> (Session \<times> Session) list \<Rightarrow> Session \<Rightarrow> SessionState \<Rightarrow> VoIPUser
     \<Rightarrow> (error + unit) \<times> VoIPUser" where
  "deliver h [] x st s = (Inr (), s)"
| "deliver h ((owner, sess) # ls) x st s =
     (if owner = x then
        (case sessionListener h sess st s of
           (Inl e, s1) \<Rightarrow> (Inl e, s1)
         | (Inr u, s1) \<Rightarrow> deliver h ls x st s1)
      else deliver h ls x st s)"

definition stateChange ::
  "sip_sessions \<Rightarrow> Session \<Rightarrow> SessionState \<Rightarrow> VoIPUser \<Rightarrow> (error + unit) \<times> VoIPUser" where
  "stateChange h x st s = deliver h (stateChangeListeners s) x st s"

definition handleIncomingCall :: "Invitation \<Rightarrow> VoIPUser \<Rightarrow> VoIPUser" where
  "handleIncomingCall invitation s =
     (if callState s = REGISTERED then
        (let s1 = s\<lparr>opInProgress := OP_PROCESS_INVITE, callState := OFFER_RECEIVED,
                    userState := UAS, session := Some (Inbound invitation)\<rparr>;
             s2 = setupSessionEventHandlers (Inbound invitation) s1;
             ci = \<lparr>callerId = (case uri_user invitation of
                                 None \<Rightarrow> ''''
                               | Some u \<Rightarrow> if u = '''' then '''' else u),
                   callerName = displayName invitation,
                   host = uri_host invitation\<rparr>
         in emit stateChanged (emit (incomingcall ci) (s2\<lparr>stored_callerInfo := Some ci\<rparr>)))
      else s\<lparr>effects := effects s @ [Invitation_reject (Inbound invitation)]\<rparr>)"

subsection \<open>Start-up and the delegate of the user agent\<close>

definition init :: "VoIPUser \<Rightarrow> VoIPUser" where
  "init s =
     (let sipUri = ''sip:'' @ authUserName (config s) @ ''@'' @ sipRegistrarHostnameOrIP (config s)
      in s\<lparr>userAgent := Some (UserAgent sipUri), opInProgress := OP_CONNECT,
           effects := effects s @ [UserAgent_start]\<rparr>)"

definition onConnect :: "VoIPUser \<Rightarrow> VoIPUser" where
  "onConnect s =
     (let s1 = emit connected (s\<lparr>callState := SERVER_CONNECTED\<rparr>)
      in case userAgent s1 of
           None \<Rightarrow> s1
         | Some ua \<Rightarrow> s1\<lparr>registerer := Some (Registerer ua)\<rparr>)"

definition onDisconnect :: "string option \<Rightarrow> VoIPUser \<Rightarrow> VoIPUser" where
  "onDisconnect err s = (case err of None \<Rightarrow> s | Some e \<Rightarrow> emit (connectionerror e) s)"

definition onInvite :: "Invitation \<Rightarrow> VoIPUser \<Rightarrow> VoIPUser" where
  "onInvite invitation s = handleIncomingCall invitation s"

subsection \<open>The public methods\<close>

definition register :: "VoIPUser \<Rightarrow> VoIPUser" where
  "register s =
     (let s1 = s\<lparr>opInProgress := OP_REGISTER\<rparr>
      in case registerer s1 of
           None \<Rightarrow> s1
         | Some r \<Rightarrow> s1\<lparr>effects := effects s1 @ [Registerer_register r]\<rparr>)"

definition unregister :: "VoIPUser \<Rightarrow> VoIPUser" where
  "unregister s =
     (let s1 = s\<lparr>opInProgress := OP_UNREGISTER\<rparr>
      in case registerer s1 of
           None \<Rightarrow> s1
         | Some r \<Rightarrow> s1\<lparr>effects := effects s1 @ [Registerer_unregister r]\<rparr>)"

definition acceptCall :: "IMediaStreamRenderer option \<Rightarrow> VoIPUser \<Rightarrow> (error + unit) \<times> VoIPUser" where
  "acceptCall mediaRenderer s =
     (let s1 = (case mediaRenderer of
                  None \<Rightarrow> s
                | Some r \<Rightarrow> s\<lparr>mediaStreamRendered := Some r\<rparr>)
      in if callState s1 = OFFER_RECEIVED \<and> opInProgress s1 = OP_PROCESS_INVITE then
           (let s2 = s1\<lparr>callState := ANSWER_SENT\<rparr>
            in case session s2 of
                 Some (Inbound i) \<Rightarrow>
                   (Inr (), s2\<lparr>effects := effects s2 @
                      [Invitation_accept (Inbound i) True
                         (case enableVideo (config s2) of None \<Rightarrow> False | Some b \<Rightarrow> b)]\<rparr>)
               | _ \<Rightarrow> (Inl SessionNotInstanceOfInvitation, s2))
         else (Inl SomethingWentWrong, s1))"

definition rejectCall :: "VoIPUser \<Rightarrow> (error + unit) \<times> VoIPUser" where
  "rejectCall s =
     (case session s of
        None \<Rightarrow> (Inl SessionDoesNotExist, s)
      | Some x \<Rightarrow>
          if callState s \<noteq> OFFER_RECEIVED then (Inl (IncorrectCallState (callState s)), s)
          else (case x of
                  Inbound i \<Rightarrow> (Inr (), s\<lparr>effects := effects s @ [Invitation_reject x]\<rparr>)
                | OtherSession n \<Rightarrow> (Inl SessionNotInstanceOfInvitation, s)))"

definition endCall :: "sip_sessions \<Rightarrow> VoIPUser \<Rightarrow> (error + unit) \<times> VoIPUser" where
  "endCall h s =
     (case session s of
        None \<Rightarrow> (Inl SessionDoesNotExist, s)
      | Some x \<Rightarrow>
          if callState s \<noteq> ANSWER_SENT \<and> callState s \<noteq> IN_CALL
          then (Inl (IncorrectCallState (callState s)), s)
          else (case state_of h x of
                  Initial \<Rightarrow>
                    (case x of
                       Inbound i \<Rightarrow> (Inr (), s\<lparr>effects := effects s @ [Invitation_reject x]\<rparr>)
                     | OtherSession n \<Rightarrow> (Inl SessionNotInstanceOfInvitation, s))
                | Establishing \<Rightarrow>
                    (case x of
                       Inbound i \<Rightarrow> (Inr (), s\<lparr>effects := effects s @ [Invitation_reject x]\<rparr>)
                     | OtherSession n \<Rightarrow> (Inl SessionNotInstanceOfInvitation, s))
                | Established \<Rightarrow> (Inr (), s\<lparr>effects := effects s @ [Session_bye x]\<rparr>)
                | Terminating \<Rightarrow> (Inr (), s)
                | Terminated \<Rightarrow> (Inr (), s)))"

subsection \<open>Sequences of calls\<close>

text \<open>One call into the object, by the UI or by the transport. A call that throws leaves the
  object as it is at the \<open>throw\<close>, and the next call finds it so.\<close>

datatype call =
  Init | OnConnect | OnDisconnect "string option" | OnInvite Invitation
  | OnAccept | OnReject string | StateChange Session SessionState
  | Register | Unregister | AcceptCall "IMediaStreamRenderer option" | RejectCall | EndCall

fun step :: "sip_sessions \<Rightarrow> call \<Rightarrow> VoIPUser \<Rightarrow> (error + unit) \<times> VoIPUser" where
  "step h Init s = (Inr (), init s)"
| "step h OnConnect s = (Inr (), onConnect s)"
| "step h (OnDisconnect err) s = (Inr (), onDisconnect err s)"
| "step h (OnInvite invitation) s = (Inr (), onInvite invitation s)"
| "step h OnAccept s = (Inr (), onAccept s)"
| "step h (OnReject err) s = (Inr (), onReject err s)"
| "step h (StateChange x st) s = stateChange h x st s"
| "step h Register s = (Inr (), register s)"
| "step h Unregister s = (Inr (), unregister s)"
| "step h (AcceptCall mediaRenderer) s = acceptCall mediaRenderer s"
| "step h RejectCall s = rejectCall s"
| "step h EndCall s = endCall h s"

fun run :: "(sip_sessions \<times> call) list \<Rightarrow> VoIPUser \<Rightarrow> VoIPUser" where
  "run [] s = s"
| "run ((h, c) # cs) s = run cs (snd (step h c s))"

subsection \<open>Example inputs\<close>

text \<open>A configuration, two invitations, a renderer, four views of the sessions of the SIP
  library, and the states of the object along one call: registered, offered, answered, in the
  call, ended; \<open>replaced0\<close> is the state after a second invitation has taken the place of the
  first.\<close>

definition cfg0 :: VoIPUserConfiguration where
  "cfg0 = \<lparr>authUserName = ''1001'', authPassword = ''secret'',
            sipRegistrarHostnameOrIP = ''example.com'', webSocketURI = ''wss://example.com/ws'',
            iceServers = [], enableVideo = None\<rparr>"

definition alice :: Invitation where
  "alice = \<lparr>ref = 1, uri_user = Some ''alice'', displayName = ''Alice'', uri_host = ''example.com''\<rparr>"

definition bob :: Invitation where
  "bob = \<lparr>ref = 2, uri_user = None, displayName = ''Bob'', uri_host = ''example.org''\<rparr>"

definition h0 :: sip_sessions where
  "h0 = \<lparr>state_of = (\<lambda>x. Established), sessionDescriptionHandler = (\<lambda>x. Some (WebSDH (Some 7)))\<rparr>"

definition h1 :: sip_sessions where
  "h1 = \<lparr>state_of = (\<lambda>x. Establishing), sessionDescriptionHandler = (\<lambda>x. None)\<rparr>"

definition screen0 :: IMediaStreamRenderer where
  "screen0 = \<lparr>remoteMediaElement = Some 3\<rparr>"

definition to_registered :: "(sip_sessions \<times> call) list" where
  "to_registered = [(h0, Init), (h0, OnConnect), (h0, Register), (h0, OnAccept)]"

definition to_answered :: "(sip_sessions \<times> call) list" where
  "to_answered = to_registered @ [(h0, OnInvite alice), (h0, AcceptCall None)]"

definition to_ended :: "(sip_sessions \<times> call) list" where
  "to_ended = to_answered @
     [(h0, StateChange (Inbound alice) Established), (h0, StateChange (Inbound alice) Terminated)]"

definition to_replaced :: "(sip_sessions \<times> call) list" where
  "to_replaced = to_answered @ [(h0, Register), (h0, OnAccept), (h0, OnInvite bob)]"

definition registered0 :: VoIPUser where
  "registered0 = run to_registered (new cfg0 None)"

definition offered0 :: VoIPUser where
  "offered0 = run (to_registered @ [(h0, OnInvite alice)]) (new cfg0 None)"

definition answered0 :: VoIPUser where
  "answered0 = run to_answered (new cfg0 None)"

definition incall0 :: VoIPUser where
  "incall0 = run (to_answered @ [(h0, StateChange (Inbound alice) Established)]) (new cfg0 None)"

definition ended0 :: VoIPUser where
  "ended0 = run to_ended (new cfg0 None)"

definition replaced0 :: VoIPUser where
  "replaced0 = run to_replaced (new cfg0 None)"

definition h2 :: sip_sessions where
  "h2 = \<lparr>state_of = (\<lambda>x. Initial), sessionDescriptionHandler = (\<lambda>x. Some ForeignSDH)\<rparr>"

definition h3 :: sip_sessions where
  "h3 = \<lparr>state_of = (\<lambda>x. Terminated), sessionDescriptionHandler = (\<lambda>x. Some (WebSDH None))\<rparr>"

text \<open>Two states that no sequence of calls reaches: the tracked session is of another class
  than \<open>Invitation\<close>.\<close>

definition foreign_offered0 :: VoIPUser where
  "foreign_offered0 = offered0\<lparr>session := Some (OtherSession 5)\<rparr>"

definition foreign_answered0 :: VoIPUser where
  "foreign_answered0 = answered0\<lparr>session := Some (OtherSession 5)\<rparr>"

section \<open>Which fields each method writes\<close>

lemma emit_frame:
  "session (emit ev s) = session s" "stored_callerInfo (emit ev s) = stored_callerInfo s"
  "stateChangeListeners (emit ev s) = stateChangeListeners s" "callState (emit ev s) = callState s"
  "opInProgress (emit ev s) = opInProgress s" "registerer (emit ev s) = registerer s"
  "remoteStream (emit ev s) = remoteStream s" "userState (emit ev s) = userState s"
  by (simp_all add: emit_def Let_def split: VoipEvents.splits)

lemma setupRemoteMedia_frame:
  "session (snd (setupRemoteMedia h s)) = session s"
  "stored_callerInfo (snd (setupRemoteMedia h s)) = stored_callerInfo s"
  "stateChangeListeners (snd (setupRemoteMedia h s)) = stateChangeListeners s"
  "callState (snd (setupRemoteMedia h s)) = callState s"
  "opInProgress (snd (setupRemoteMedia h s)) = opInProgress s"
  "registerer (snd (setupRemoteMedia h s)) = registerer s"
  "userState (snd (setupRemoteMedia h s)) = userState s"
  by (simp_all add: setupRemoteMedia_def Let_def split: option.splits SessionDescriptionHandler.splits)

lemma clearRemoteStream_frame:
  "session (clearRemoteStream s) = session s"
  "stored_callerInfo (clearRemoteStream s) = stored_callerInfo s"
  "stateChangeListeners (clearRemoteStream s) = stateChangeListeners s"
  "callState (clearRemoteStream s) = callState s"
  "opInProgress (clearRemoteStream s) = opInProgress s"
  "registerer (clearRemoteStream s) = registerer s"
  "userState (clearRemoteStream s) = userState s"
  by (simp_all add: clearRemoteStream_def split: option.splits)

lemma sessionListener_stale:
  "session s \<noteq> Some sess \<Longrightarrow> sessionListener h sess st s = (Inr (), s)"
  by (simp add: sessionListener_def)

lemma sessionListener_idle:
  "sessionListener h sess Initial s = (Inr (), s)" "sessionListener h sess Establishing s = (Inr (), s)"
  by (simp_all add: sessionListener_def)

lemma sessionListener_established:
  "session s = Some sess \<Longrightarrow>
   sessionListener h sess Established s =
     (case setupRemoteMedia h (s\<lparr>opInProgress := OP_NONE, callState := IN_CALL\<rparr>) of
        (Inl e, s1) \<Rightarrow> (Inl e, s1)
      | (Inr u, s1) \<Rightarrow> (Inr (), emit stateChanged (emit callestablished s1)))"
  by (simp add: sessionListener_def)

lemma sessionListener_terminated:
  "session s = Some sess \<Longrightarrow> st = Terminating \<or> st = Terminated \<Longrightarrow>
   sessionListener h sess st s =
     (Inr (), emit stateChanged (clearRemoteStream (emit callterminated
                (s\<lparr>session := None, callState := REGISTERED, opInProgress := OP_NONE,
                   userState := UserState_IDLE\<rparr>))))"
  by (auto simp add: sessionListener_def)

lemma sessionListener_frame:
  "stored_callerInfo (snd (sessionListener h sess st s)) = stored_callerInfo s
   \<and> stateChangeListeners (snd (sessionListener h sess st s)) = stateChangeListeners s
   \<and> registerer (snd (sessionListener h sess st s)) = registerer s
   \<and> (session (snd (sessionListener h sess st s)) = session s
        \<or> session (snd (sessionListener h sess st s)) = None)"
proof (cases "session s = Some sess")
  case False
  then show ?thesis by (simp add: sessionListener_stale)
next
  case True
  let ?s1 = "s\<lparr>opInProgress := OP_NONE, callState := IN_CALL\<rparr>"
  obtain r s2 where m: "setupRemoteMedia h ?s1 = (r, s2)" by (cases "setupRemoteMedia h ?s1")
  have f: "stored_callerInfo s2 = stored_callerInfo s" "stateChangeListeners s2 = stateChangeListeners s"
    "registerer s2 = registerer s" "session s2 = session s"
    using setupRemoteMedia_frame [of h ?s1] by (simp_all add: m)
  show ?thesis
  proof (cases st)
    case Initial
    then show ?thesis by (simp add: sessionListener_idle)
  next
    case Establishing
    then show ?thesis by (simp add: sessionListener_idle)
  next
    case Established
    show ?thesis
      by (cases r) (simp_all add: Established sessionListener_established [OF True] m f emit_frame)
  next
    case Terminating
    then show ?thesis
      by (simp add: sessionListener_terminated [OF True] emit_frame clearRemoteStream_frame)
  next
    case Terminated
    then show ?thesis
      by (simp add: sessionListener_terminated [OF True] emit_frame clearRemoteStream_frame)
  qed
qed

lemma deliver_frame:
  "stored_callerInfo (snd (deliver h ls x st s)) = stored_callerInfo s
   \<and> stateChangeListeners (snd (deliver h ls x st s)) = stateChangeListeners s
   \<and> registerer (snd (deliver h ls x st s)) = registerer s
   \<and> (session (snd (deliver h ls x st s)) = session s \<or> session (snd (deliver h ls x st s)) = None)"
proof (induction ls arbitrary: s)
  case Nil
  show ?case by simp
next
  case (Cons l ls)
  obtain owner sess where l: "l = (owner, sess)" by (cases l)
  obtain r s1 where m: "sessionListener h sess st s = (r, s1)" by (cases "sessionListener h sess st s")
  have f: "stored_callerInfo s1 = stored_callerInfo s" "stateChangeListeners s1 = stateChangeListeners s"
    "registerer s1 = registerer s" "session s1 = session s \<or> session s1 = None"
    using sessionListener_frame [of h sess st s] by (simp_all add: m)
  show ?case
  proof (cases "owner = x")
    case False
    then show ?thesis using Cons.IH [of s] by (simp add: l)
  next
    case True
    show ?thesis
    proof (cases r)
      case (Inl e)
      then show ?thesis using f True by (simp add: l m)
    next
      case (Inr u)
      have d: "deliver h (l # ls) x st s = deliver h ls x st s1"
        using True Inr by (simp add: l m)
      show ?thesis unfolding d using Cons.IH [of s1] f by metis
    qed
  qed
qed

lemma deliver_stale:
  "(\<And>p. p \<in> set ls \<Longrightarrow> fst p = x \<Longrightarrow> session s \<noteq> Some (snd p)) \<Longrightarrow> deliver h ls x st s = (Inr (), s)"
proof (induction ls)
  case Nil
  show ?case by simp
next
  case (Cons l ls)
  obtain owner sess where l: "l = (owner, sess)" by (cases l)
  have t: "deliver h ls x st s = (Inr (), s)"
    using Cons.IH Cons.prems by simp
  show ?case
  proof (cases "owner = x")
    case False
    then show ?thesis using t by (simp add: l)
  next
    case True
    have "session s \<noteq> Some sess" using Cons.prems [of l] True by (simp add: l)
    then have "sessionListener h sess st s = (Inr (), s)" by (rule sessionListener_stale)
    then show ?thesis using t True by (simp add: l)
  qed
qed

lemma handleIncomingCall_frame:
  "registerer (handleIncomingCall i s) = registerer s"
  "stored_callerInfo s \<noteq> None \<Longrightarrow> stored_callerInfo (handleIncomingCall i s) \<noteq> None"
  "session (handleIncomingCall i s) = session s \<or> session (handleIncomingCall i s) = Some (Inbound i)"
  "callState (handleIncomingCall i s) \<noteq> IN_CALL \<or> callState (handleIncomingCall i s) = callState s"
  "opInProgress (handleIncomingCall i s) = opInProgress s \<or> opInProgress (handleIncomingCall i s) = OP_PROCESS_INVITE"
  "stateChangeListeners (handleIncomingCall i s) = stateChangeListeners s
   \<or> (stateChangeListeners (handleIncomingCall i s) = stateChangeListeners s @ [(Inbound i, Inbound i)]
       \<and> stored_callerInfo (handleIncomingCall i s) \<noteq> None)"
  by (simp_all add: handleIncomingCall_def setupSessionEventHandlers_def Let_def emit_frame)

lemma acceptCall_frame:
  "registerer (snd (acceptCall mr s)) = registerer s"
  "stored_callerInfo (snd (acceptCall mr s)) = stored_callerInfo s"
  "session (snd (acceptCall mr s)) = session s"
  "stateChangeListeners (snd (acceptCall mr s)) = stateChangeListeners s"
  "opInProgress (snd (acceptCall mr s)) = opInProgress s"
  "callState (snd (acceptCall mr s)) = callState s \<or> callState (snd (acceptCall mr s)) = ANSWER_SENT"
  by (simp_all add: acceptCall_def Let_def split: option.splits Session.splits)

lemma rejectCall_frame:
  "registerer (snd (rejectCall s)) = registerer s"
  "stored_callerInfo (snd (rejectCall s)) = stored_callerInfo s"
  "session (snd (rejectCall s)) = session s"
  "stateChangeListeners (snd (rejectCall s)) = stateChangeListeners s"
  "opInProgress (snd (rejectCall s)) = opInProgress s"
  "callState (snd (rejectCall s)) = callState s"
  by (simp_all add: rejectCall_def split: option.splits Session.splits)

lemma endCall_frame:
  "registerer (snd (endCall h s)) = registerer s"
  "stored_callerInfo (snd (endCall h s)) = stored_callerInfo s"
  "session (snd (endCall h s)) = session s"
  "stateChangeListeners (snd (endCall h s)) = stateChangeListeners s"
  "opInProgress (snd (endCall h s)) = opInProgress s"
  "callState (snd (endCall h s)) = callState s"
  by (simp_all add: endCall_def split: option.splits Session.splits SessionState.splits)

lemma onAccept_frame:
  "registerer (onAccept s) = registerer s"
  "stored_callerInfo (onAccept s) = stored_callerInfo s"
  "session (onAccept s) = session s"
  "stateChangeListeners (onAccept s) = stateChangeListeners s"
  "opInProgress (onAccept s) = opInProgress s"
  "callState (onAccept s) \<noteq> IN_CALL \<or> callState (onAccept s) = callState s"
  by (simp_all add: onAccept_def Let_def emit_frame)

lemma onReject_frame:
  "registerer (onReject e s) = registerer s"
  "stored_callerInfo (onReject e s) = stored_callerInfo s"
  "session (onReject e s) = session s"
  "stateChangeListeners (onReject e s) = stateChangeListeners s"
  "opInProgress (onReject e s) = opInProgress s"
  "callState (onReject e s) = callState s"
  by (simp_all add: onReject_def Let_def emit_frame)

lemma onDisconnect_frame:
  "registerer (onDisconnect e s) = registerer s"
  "stored_callerInfo (onDisconnect e s) = stored_callerInfo s"
  "session (onDisconnect e s) = session s"
  "stateChangeListeners (onDisconnect e s) = stateChangeListeners s"
  "opInProgress (onDisconnect e s) = opInProgress s"
  "callState (onDisconnect e s) = callState s"
  by (simp_all add: onDisconnect_def emit_frame split: option.splits)

lemma onConnect_frame:
  "stored_callerInfo (onConnect s) = stored_callerInfo s"
  "session (onConnect s) = session s"
  "stateChangeListeners (onConnect s) = stateChangeListeners s"
  "opInProgress (onConnect s) = opInProgress s"
  "callState (onConnect s) = SERVER_CONNECTED"
  by (simp_all add: onConnect_def Let_def emit_frame split: option.splits)

lemma init_frame:
  "registerer (init s) = registerer s"
  "stored_callerInfo (init s) = stored_callerInfo s"
  "session (init s) = session s"
  "stateChangeListeners (init s) = stateChangeListeners s"
  "opInProgress (init s) = OP_CONNECT"
  "callState (init s) = callState s"
  by (simp_all add: init_def Let_def)

lemma register_frame:
  "registerer (register s) = registerer s"
  "stored_callerInfo (register s) = stored_callerInfo s"
  "session (register s) = session s"
  "stateChangeListeners (register s) = stateChangeListeners s"
  "opInProgress (register s) = OP_REGISTER"
  "callState (register s) = callState s"
  by (simp_all add: register_def Let_def split: option.splits)

lemma unregister_frame:
  "registerer (unregister s) = registerer s"
  "stored_callerInfo (unregister s) = stored_callerInfo s"
  "session (unregister s) = session s"
  "stateChangeListeners (unregister s) = stateChangeListeners s"
  "opInProgress (unregister s) = OP_UNREGISTER"
  "callState (unregister s) = callState s"
  by (simp_all add: unregister_def Let_def split: option.splits)

section \<open>Invariants of sequences of calls\<close>

lemma step_registerer:
  "c \<noteq> OnConnect \<Longrightarrow> registerer (snd (step h c s)) = registerer s"
  by (cases c)
    (simp_all add: init_frame onDisconnect_frame onInvite_def handleIncomingCall_frame
      onAccept_frame onReject_frame stateChange_def deliver_frame register_frame unregister_frame
      acceptCall_frame rejectCall_frame endCall_frame)

lemma run_registerer:
  "OnConnect \<notin> snd ` set cs \<Longrightarrow> registerer (run cs s) = registerer s"
proof (induction cs arbitrary: s)
  case Nil
  show ?case by simp
next
  case (Cons a cs)
  obtain h c where a: "a = (h, c)" by (cases a)
  have c: "c \<noteq> OnConnect" and cs: "OnConnect \<notin> snd ` set cs"
    using Cons.prems by (auto simp add: a)
  show ?case
    using Cons.IH [OF cs, of "snd (step h c s)"] step_registerer [OF c, of h s] by (simp add: a)
qed

lemma step_stored:
  "stored_callerInfo s \<noteq> None \<Longrightarrow> stored_callerInfo (snd (step h c s)) \<noteq> None"
  by (cases c)
    (simp_all add: init_frame onConnect_frame onDisconnect_frame onInvite_def handleIncomingCall_frame
      onAccept_frame onReject_frame stateChange_def deliver_frame register_frame unregister_frame
      acceptCall_frame rejectCall_frame endCall_frame)

lemma step_session:
  "session (snd (step h c s)) = session s \<or> session (snd (step h c s)) = None
   \<or> (\<exists>i. session (snd (step h c s)) = Some (Inbound i))"
proof (cases c)
  case (OnInvite i)
  then show ?thesis using handleIncomingCall_frame(3) [of i s] by (auto simp add: onInvite_def)
next
  case (StateChange x st)
  then show ?thesis using deliver_frame [of h "stateChangeListeners s" x st s]
    by (auto simp add: stateChange_def)
qed (simp_all add: init_frame onConnect_frame onDisconnect_frame
      onAccept_frame onReject_frame register_frame unregister_frame
      acceptCall_frame rejectCall_frame endCall_frame)

lemma run_session:
  "session s \<noteq> Some (OtherSession n) \<Longrightarrow> session (run cs s) \<noteq> Some (OtherSession n)"
proof (induction cs arbitrary: s)
  case Nil
  then show ?case by simp
next
  case (Cons a cs)
  obtain h c where a: "a = (h, c)" by (cases a)
  have "session (snd (step h c s)) \<noteq> Some (OtherSession n)"
    using step_session [of h c s] Cons.prems by auto
  then show ?case using Cons.IH [of "snd (step h c s)"] by (simp add: a)
qed

lemma step_listeners:
  "(\<And>p. p \<in> set (stateChangeListeners s) \<Longrightarrow> fst p = snd p) \<Longrightarrow>
   p \<in> set (stateChangeListeners (snd (step h c s))) \<Longrightarrow> fst p = snd p"
proof (cases c)
  case (OnInvite i)
  assume a: "\<And>p. p \<in> set (stateChangeListeners s) \<Longrightarrow> fst p = snd p"
    and b: "p \<in> set (stateChangeListeners (snd (step h c s)))"
  show ?thesis using a [of p] b handleIncomingCall_frame(6) [of i s]
    by (auto simp add: OnInvite onInvite_def)
qed (simp_all add: init_frame onConnect_frame onDisconnect_frame
      onAccept_frame onReject_frame register_frame unregister_frame
      acceptCall_frame rejectCall_frame endCall_frame stateChange_def deliver_frame)

lemma run_listeners:
  "(\<And>p. p \<in> set (stateChangeListeners s) \<Longrightarrow> fst p = snd p) \<Longrightarrow>
   p \<in> set (stateChangeListeners (run cs s)) \<Longrightarrow> fst p = snd p"
proof (induction cs arbitrary: s)
  case Nil
  then show ?case by simp
next
  case (Cons a cs)
  obtain h c where a: "a = (h, c)" by (cases a)
  have "\<And>q. q \<in> set (stateChangeListeners (snd (step h c s))) \<Longrightarrow> fst q = snd q"
    using step_listeners [of s _ h c] Cons.prems(1) by blast
  then show ?case using Cons.IH [of "snd (step h c s)"] Cons.prems(2) by (simp add: a)
qed

lemma step_op_none:
  "opInProgress (snd (step h c s)) = OP_NONE \<Longrightarrow>
   opInProgress s = OP_NONE \<or> (\<exists>x st. c = StateChange x st)"
proof (cases c)
  case (OnInvite i)
  assume "opInProgress (snd (step h c s)) = OP_NONE"
  then show ?thesis using handleIncomingCall_frame(5) [of i s]
    by (auto simp add: OnInvite onInvite_def)
qed (simp_all add: init_frame onConnect_frame onDisconnect_frame
      onAccept_frame onReject_frame register_frame unregister_frame
      acceptCall_frame rejectCall_frame endCall_frame)

lemma step_callerInfo_known:
  assumes c: "callState s = IN_CALL \<longrightarrow> stored_callerInfo s \<noteq> None"
    and l: "stateChangeListeners s \<noteq> [] \<longrightarrow> stored_callerInfo s \<noteq> None"
  shows "(callState (snd (step h c s)) = IN_CALL \<longrightarrow> stored_callerInfo (snd (step h c s)) \<noteq> None)
    \<and> (stateChangeListeners (snd (step h c s)) \<noteq> [] \<longrightarrow> stored_callerInfo (snd (step h c s)) \<noteq> None)"
proof (cases "stored_callerInfo s = None")
  case False
  then show ?thesis using step_stored [of s h c] by simp
next
  case True
  have cs: "callState s \<noteq> IN_CALL" and ls: "stateChangeListeners s = []"
    using c l True by auto
  show ?thesis
  proof (cases c)
    case (OnInvite i)
    then show ?thesis
      using cs ls handleIncomingCall_frame(4) [of i s] handleIncomingCall_frame(6) [of i s]
      by (auto simp add: onInvite_def)
  next
    case (StateChange x st)
    then show ?thesis using cs ls by (simp add: stateChange_def)
  next
    case OnAccept
    then show ?thesis using cs ls onAccept_frame(6) [of s] by (auto simp add: onAccept_frame(1-5))
  next
    case (AcceptCall mr)
    then show ?thesis using cs ls acceptCall_frame(6) [of mr s] by (auto simp add: acceptCall_frame(1-5))
  qed (simp_all add: cs ls init_frame onConnect_frame onDisconnect_frame
      onReject_frame register_frame unregister_frame rejectCall_frame endCall_frame)
qed

lemma run_callerInfo_known:
  "callState s = IN_CALL \<longrightarrow> stored_callerInfo s \<noteq> None \<Longrightarrow>
   stateChangeListeners s \<noteq> [] \<longrightarrow> stored_callerInfo s \<noteq> None \<Longrightarrow>
   (callState (run cs s) = IN_CALL \<longrightarrow> stored_callerInfo (run cs s) \<noteq> None)
   \<and> (stateChangeListeners (run cs s) \<noteq> [] \<longrightarrow> stored_callerInfo (run cs s) \<noteq> None)"
proof (induction cs arbitrary: s)
  case Nil
  then show ?case by simp
next
  case (Cons a cs)
  obtain h c where a: "a = (h, c)" by (cases a)
  show ?case
    using Cons.IH [of "snd (step h c s)"] step_callerInfo_known [OF Cons.prems, of h c]
    by (simp add: a)
qed

lemma new_fields:
  "callState (new cfg mr) = IDLE" "stateChangeListeners (new cfg mr) = []"
  "session (new cfg mr) = None" "registerer (new cfg mr) = None"
  "stored_callerInfo (new cfg mr) = None" "opInProgress (new cfg mr) = OP_NONE"
  by (simp_all add: new_def)

lemma reachable_callerInfo:
  "callState (run cs (new cfg mr)) = IN_CALL \<Longrightarrow> stored_callerInfo (run cs (new cfg mr)) \<noteq> None"
  using run_callerInfo_known [of "new cfg mr" cs] by (simp add: new_fields)

lemma reachable_session:
  "session (run cs (new cfg mr)) \<noteq> Some (OtherSession n)"
  using run_session [of "new cfg mr" n cs] by (simp add: new_fields)

lemma reachable_stale:
  assumes "session (run cs (new cfg mr)) \<noteq> Some x"
  shows "stateChange h x st (run cs (new cfg mr)) = (Inr (), run cs (new cfg mr))"
proof -
  let ?s = "run cs (new cfg mr)"
  have d: "\<And>p. p \<in> set (stateChangeListeners ?s) \<Longrightarrow> fst p = snd p"
    using run_listeners [of "new cfg mr" _ cs] by (simp add: new_fields)
  have "\<And>p. p \<in> set (stateChangeListeners ?s) \<Longrightarrow> fst p = x \<Longrightarrow> session ?s \<noteq> Some (snd p)"
    using d assms by metis
  then show ?thesis unfolding stateChange_def by (rule deliver_stale)
qed

lemma handleIncomingCall_stored:
  "callState s = REGISTERED \<Longrightarrow>
     stored_callerInfo (handleIncomingCall i s) =
       Some \<lparr>callerId = (case uri_user i of None \<Rightarrow> '''' | Some u \<Rightarrow> u),
             callerName = displayName i, host = uri_host i\<rparr>"
  "callState s \<noteq> REGISTERED \<Longrightarrow> stored_callerInfo (handleIncomingCall i s) = stored_callerInfo s"
  "callState s \<noteq> REGISTERED \<Longrightarrow> callState (handleIncomingCall i s) = callState s"
  "callState s \<noteq> REGISTERED \<Longrightarrow>
     stateChangeListeners (handleIncomingCall i s) = stateChangeListeners s"
  by (simp_all add: handleIncomingCall_def setupSessionEventHandlers_def Let_def emit_frame
      split: option.splits)

lemma acceptCall_callState:
  "callState (snd (acceptCall mr s)) = callState s
   \<or> (callState s = OFFER_RECEIVED \<and> callState (snd (acceptCall mr s)) = ANSWER_SENT)"
  by (simp add: acceptCall_def Let_def split: option.splits Session.splits)

lemma onAccept_callState:
  "callState (onAccept s) = callState s \<or> callState (onAccept s) = REGISTERED
   \<or> callState (onAccept s) = UNREGISTERED"
  by (simp add: onAccept_def Let_def emit_frame)

lemma step_stored_change:
  "stored_callerInfo (snd (step h c s)) \<noteq> stored_callerInfo s \<Longrightarrow>
   callState s = REGISTERED
   \<and> (\<exists>i. c = OnInvite i
         \<and> stored_callerInfo (snd (step h c s)) =
             Some \<lparr>callerId = (case uri_user i of None \<Rightarrow> '''' | Some u \<Rightarrow> u),
                   callerName = displayName i, host = uri_host i\<rparr>)"
proof (cases c)
  case (OnInvite i)
  assume a: "stored_callerInfo (snd (step h c s)) \<noteq> stored_callerInfo s"
  have r: "callState s = REGISTERED"
    using a handleIncomingCall_stored(2) [of s i] by (auto simp add: OnInvite onInvite_def)
  show ?thesis
    using r handleIncomingCall_stored(1) [of s i] by (simp add: OnInvite onInvite_def)
qed (simp_all add: init_frame onConnect_frame onDisconnect_frame
      onAccept_frame onReject_frame register_frame unregister_frame
      acceptCall_frame rejectCall_frame endCall_frame stateChange_def deliver_frame)

lemma step_call_has_caller:
  assumes c: "callState s = OFFER_RECEIVED \<or> callState s = ANSWER_SENT \<or> callState s = IN_CALL
                \<longrightarrow> stored_callerInfo s \<noteq> None"
    and l: "stateChangeListeners s \<noteq> [] \<longrightarrow> stored_callerInfo s \<noteq> None"
  shows "(callState (snd (step h c s)) = OFFER_RECEIVED \<or> callState (snd (step h c s)) = ANSWER_SENT
            \<or> callState (snd (step h c s)) = IN_CALL
          \<longrightarrow> stored_callerInfo (snd (step h c s)) \<noteq> None)
    \<and> (stateChangeListeners (snd (step h c s)) \<noteq> [] \<longrightarrow> stored_callerInfo (snd (step h c s)) \<noteq> None)"
proof (cases "stored_callerInfo s = None")
  case False
  then show ?thesis using step_stored [of s h c] by simp
next
  case True
  have cs: "callState s \<noteq> OFFER_RECEIVED" "callState s \<noteq> ANSWER_SENT" "callState s \<noteq> IN_CALL"
    and ls: "stateChangeListeners s = []"
    using c l True by auto
  show ?thesis
  proof (cases c)
    case (OnInvite i)
    show ?thesis
    proof (cases "callState s = REGISTERED")
      case True
      then show ?thesis using handleIncomingCall_stored(1) [of s i] by (simp add: OnInvite onInvite_def)
    next
      case False
      then show ?thesis using cs ls handleIncomingCall_stored(3,4) [of s i]
        by (simp add: OnInvite onInvite_def)
    qed
  next
    case (StateChange x st)
    then show ?thesis using cs ls by (simp add: stateChange_def)
  next
    case OnAccept
    then show ?thesis using cs ls onAccept_callState [of s] by (auto simp add: onAccept_frame(1-5))
  next
    case (AcceptCall mr)
    then show ?thesis using cs ls acceptCall_callState [of mr s] by (auto simp add: acceptCall_frame(1-5))
  qed (simp_all add: cs ls init_frame onConnect_frame onDisconnect_frame
      onReject_frame register_frame unregister_frame rejectCall_frame endCall_frame)
qed

lemma run_call_has_caller:
  "callState s = OFFER_RECEIVED \<or> callState s = ANSWER_SENT \<or> callState s = IN_CALL
     \<longrightarrow> stored_callerInfo s \<noteq> None \<Longrightarrow>
   stateChangeListeners s \<noteq> [] \<longrightarrow> stored_callerInfo s \<noteq> None \<Longrightarrow>
   (callState (run cs s) = OFFER_RECEIVED \<or> callState (run cs s) = ANSWER_SENT
      \<or> callState (run cs s) = IN_CALL \<longrightarrow> stored_callerInfo (run cs s) \<noteq> None)
   \<and> (stateChangeListeners (run cs s) \<noteq> [] \<longrightarrow> stored_callerInfo (run cs s) \<noteq> None)"
proof (induction cs arbitrary: s)
  case Nil
  then show ?case by simp
next
  case (Cons a cs)
  obtain h c where a: "a = (h, c)" by (cases a)
  show ?case
    using Cons.IH [of "snd (step h c s)"] step_call_has_caller [OF Cons.prems, of h c]
    by (simp add: a)
qed

lemma reachable_call_has_caller:
  "callState (run cs (new cfg mr)) = OFFER_RECEIVED \<or> callState (run cs (new cfg mr)) = ANSWER_SENT
     \<or> callState (run cs (new cfg mr)) = IN_CALL \<Longrightarrow>
   stored_callerInfo (run cs (new cfg mr)) \<noteq> None"
  using run_call_has_caller [of "new cfg mr" cs] by (simp add: new_fields)

section \<open>The example call, evaluated\<close>

lemma run_append: "run (as @ bs) s = run bs (run as s)"
  by (induction as arbitrary: s) auto

lemma registered0_eq:
  "registered0 =
     \<lparr>isReady = True, config = cfg0, session = None, remoteStream = None,
      userAgent = Some (UserAgent ''sip:1001@example.com''),
      registerer = Some (Registerer (UserAgent ''sip:1001@example.com'')),
      mediaStreamRendered = None, callState = REGISTERED, stored_callerInfo = None,
      userState = UserState_IDLE, opInProgress = OP_REGISTER, stateChangeListeners = [],
      effects = [UserAgent_start, Emitted connected,
                 Registerer_register (Registerer (UserAgent ''sip:1001@example.com'')),
                 Emitted registered, Emitted stateChanged]\<rparr>"
  by (simp add: registered0_def to_registered_def new_def init_def onConnect_def register_def
      onAccept_def emit_def cfg0_def)

lemma offered0_eq:
  "offered0 = registered0
     \<lparr>session := Some (Inbound alice), callState := OFFER_RECEIVED,
      stored_callerInfo := Some \<lparr>callerId = ''alice'', callerName = ''Alice'', host = ''example.com''\<rparr>,
      userState := UAS, opInProgress := OP_PROCESS_INVITE,
      stateChangeListeners := [(Inbound alice, Inbound alice)],
      effects := effects registered0 @
         [Emitted (incomingcall \<lparr>callerId = ''alice'', callerName = ''Alice'', host = ''example.com''\<rparr>),
          Emitted stateChanged]\<rparr>"
proof -
  have "offered0 = run [(h0, OnInvite alice)] registered0"
    by (simp add: offered0_def registered0_def run_append)
  then show ?thesis
    by (simp add: registered0_eq onInvite_def handleIncomingCall_def
      setupSessionEventHandlers_def emit_def alice_def Let_def)
qed

lemma answered0_eq:
  "answered0 = offered0
     \<lparr>callState := ANSWER_SENT,
      effects := effects offered0 @ [Invitation_accept (Inbound alice) True False]\<rparr>"
proof -
  have "answered0 = run [(h0, AcceptCall None)] offered0"
    by (simp add: answered0_def to_answered_def offered0_def run_append)
  then show ?thesis
    by (simp add: offered0_eq registered0_eq acceptCall_def cfg0_def)
qed

lemma incall0_eq:
  "incall0 = answered0
     \<lparr>remoteStream := Some 7, callState := IN_CALL, opInProgress := OP_NONE,
      effects := effects answered0 @ [Emitted callestablished, Emitted stateChanged]\<rparr>"
proof -
  have "incall0 = run [(h0, StateChange (Inbound alice) Established)] answered0"
    by (simp add: incall0_def answered0_def run_append)
  then show ?thesis
    by (simp add: answered0_eq offered0_eq registered0_eq stateChange_def
      sessionListener_def setupRemoteMedia_def emit_def h0_def)
qed

lemma ended0_eq:
  "ended0 = incall0
     \<lparr>session := None, callState := REGISTERED, userState := UserState_IDLE,
      effects := effects incall0 @ [Emitted callterminated, Stream_clear, Emitted stateChanged]\<rparr>"
proof -
  have "ended0 = run [(h0, StateChange (Inbound alice) Terminated)] incall0"
    by (simp add: ended0_def to_ended_def incall0_def run_append)
  then show ?thesis
    by (simp add: incall0_eq answered0_eq offered0_eq registered0_eq stateChange_def
      sessionListener_def clearRemoteStream_def emit_def)
qed

lemma replaced0_eq:
  "replaced0 = answered0
     \<lparr>session := Some (Inbound bob), callState := OFFER_RECEIVED,
      stored_callerInfo := Some \<lparr>callerId = '''', callerName = ''Bob'', host = ''example.org''\<rparr>,
      stateChangeListeners := [(Inbound alice, Inbound alice), (Inbound bob, Inbound bob)],
      effects := effects answered0 @
        [Registerer_register (Registerer (UserAgent ''sip:1001@example.com'')),
         Emitted registered, Emitted stateChanged,
         Emitted (incomingcall \<lparr>callerId = '''', callerName = ''Bob'', host = ''example.org''\<rparr>),
         Emitted stateChanged]\<rparr>"
proof -
  have "replaced0 = run [(h0, Register), (h0, OnAccept), (h0, OnInvite bob)] answered0"
    by (simp add: replaced0_def to_replaced_def answered0_def run_append)
  then show ?thesis
    by (simp add: answered0_eq offered0_eq registered0_eq register_def onAccept_def onInvite_def
      handleIncomingCall_def setupSessionEventHandlers_def emit_def Let_def bob_def)
qed

lemma incall0_step:
  "snd (step h0 (StateChange (Inbound alice) Established) answered0) = incall0"
  by (simp add: incall0_def answered0_def run_append del: step.simps)

lemma ended0_step:
  "snd (step h0 (StateChange (Inbound alice) Terminated) incall0) = ended0"
  by (simp add: ended0_def to_ended_def incall0_def run_append del: step.simps)


section \<open>The guards of the commands\<close>

lemma acceptCall_guard:
  "callState s \<noteq> OFFER_RECEIVED \<or> opInProgress s \<noteq> OP_PROCESS_INVITE \<Longrightarrow>
      acceptCall mr s =
        (Inl SomethingWentWrong,
         case mr of None \<Rightarrow> s | Some r \<Rightarrow> s\<lparr>mediaStreamRendered := Some r\<rparr>)"
  by (cases mr) (auto simp add: acceptCall_def)

lemma rejectCall_guard: "fst (rejectCall s) = Inl e \<Longrightarrow> snd (rejectCall s) = s"
  by (cases "session s"; cases "the (session s)"; cases "callState s = OFFER_RECEIVED")
    (simp_all add: rejectCall_def)

lemma endCall_guard: "fst (endCall h s) = Inl e \<Longrightarrow> snd (endCall h s) = s"
proof (cases "session s")
  case None
  then show ?thesis by (simp add: endCall_def)
next
  case (Some x)
  assume a: "fst (endCall h s) = Inl e"
  show ?thesis
  proof (cases "callState s \<noteq> ANSWER_SENT \<and> callState s \<noteq> IN_CALL")
    case True
    then show ?thesis by (simp add: endCall_def Some)
  next
    case False
    then show ?thesis using a
      by (cases "state_of h x"; cases x) (auto simp add: endCall_def Some)
  qed
qed


lemma rejectCall_cases:
  "session s = None \<Longrightarrow> rejectCall s = (Inl SessionDoesNotExist, s)"
  "session s = Some x \<Longrightarrow> callState s \<noteq> OFFER_RECEIVED \<Longrightarrow>
     rejectCall s = (Inl (IncorrectCallState (callState s)), s)"
  "session s = Some (OtherSession n) \<Longrightarrow> callState s = OFFER_RECEIVED \<Longrightarrow>
     rejectCall s = (Inl SessionNotInstanceOfInvitation, s)"
  "session s = Some (Inbound i) \<Longrightarrow> callState s = OFFER_RECEIVED \<Longrightarrow>
     rejectCall s = (Inr (), s\<lparr>effects := effects s @ [Invitation_reject (Inbound i)]\<rparr>)"
  by (simp_all add: rejectCall_def)

lemma endCall_cases:
  "session s = None \<Longrightarrow> endCall h s = (Inl SessionDoesNotExist, s)"
  "session s = Some x \<Longrightarrow> callState s \<noteq> ANSWER_SENT \<Longrightarrow> callState s \<noteq> IN_CALL \<Longrightarrow>
     endCall h s = (Inl (IncorrectCallState (callState s)), s)"
  "session s = Some (OtherSession n) \<Longrightarrow> callState s = ANSWER_SENT \<or> callState s = IN_CALL \<Longrightarrow>
     state_of h (OtherSession n) = Initial \<or> state_of h (OtherSession n) = Establishing \<Longrightarrow>
     endCall h s = (Inl SessionNotInstanceOfInvitation, s)"
  by (auto simp add: endCall_def)

lemma acceptCall_ok:
  "callState s = OFFER_RECEIVED \<Longrightarrow> opInProgress s = OP_PROCESS_INVITE \<Longrightarrow>
   session s = Some (Inbound i) \<Longrightarrow>
   fst (acceptCall mr s) = Inr () \<and> callState (snd (acceptCall mr s)) = ANSWER_SENT"
  by (cases mr) (simp_all add: acceptCall_def)

lemma foreign_fields:
  "session foreign_offered0 = Some (OtherSession 5)" "callState foreign_offered0 = OFFER_RECEIVED"
  "session foreign_answered0 = Some (OtherSession 5)" "callState foreign_answered0 = ANSWER_SENT"
  by (simp_all add: foreign_offered0_def foreign_answered0_def answered0_eq offered0_eq registered0_eq)

lemma example_fields:
  "session (new cfg0 None) = None" "callState (new cfg0 None) = IDLE"
  "session registered0 = None" "callState registered0 = REGISTERED"
  "session offered0 = Some (Inbound alice)" "callState offered0 = OFFER_RECEIVED"
  "opInProgress offered0 = OP_PROCESS_INVITE"
  "session answered0 = Some (Inbound alice)" "callState answered0 = ANSWER_SENT"
  "stored_callerInfo registered0 = None"
  "stored_callerInfo offered0 =
     Some \<lparr>callerId = ''alice'', callerName = ''Alice'', host = ''example.com''\<rparr>"
  by (simp_all add: new_def answered0_eq offered0_eq registered0_eq)

section \<open>The claims\<close>

subsection \<open>C1: the operation in progress after a register or unregister exchange\<close>

text \<open>
  C1, as the code has it. \<open>onAccept\<close> and \<open>onReject\<close> never write \<open>operationInProgress\<close>: after
  an exchange that the transport accepts or rejects it still holds the operation the command
  recorded. After connect and a successful register the call state is \<open>REGISTERED\<close> and the
  operation in progress is \<open>OP_REGISTER\<close>. A call into the object leaves the operation at
  \<open>OP_NONE\<close> only if it was \<open>OP_NONE\<close> before or the call is a state change of a session; the
  listener of the tracked session resets it when the session is established, terminating or
  terminated.
\<close>

theorem register_exchange_keeps_operation:
  "opInProgress (onAccept s) = opInProgress s
   \<and> opInProgress (onReject err s) = opInProgress s
   \<and> callState (onAccept (register (onConnect (init (new cfg mr))))) = REGISTERED
   \<and> opInProgress (onAccept (register (onConnect (init (new cfg mr))))) = OP_REGISTER
   \<and> (opInProgress (snd (step h c s)) = OP_NONE \<longrightarrow>
        opInProgress s = OP_NONE \<or> (\<exists>x st. c = StateChange x st))
   \<and> (session s = Some x \<and> (st = Established \<or> st = Terminating \<or> st = Terminated) \<longrightarrow>
        opInProgress (snd (sessionListener h x st s)) = OP_NONE)"
proof -
  have a: "callState (onAccept (register (onConnect (init (new cfg mr))))) = REGISTERED"
    by (simp add: onAccept_def register_frame emit_frame)
  have b: "session s = Some x \<Longrightarrow> opInProgress (snd (sessionListener h x Established s)) = OP_NONE"
    using setupRemoteMedia_frame(5) [of h "s\<lparr>opInProgress := OP_NONE, callState := IN_CALL\<rparr>"]
    by (cases "setupRemoteMedia h (s\<lparr>opInProgress := OP_NONE, callState := IN_CALL\<rparr>)")
      (auto simp add: sessionListener_established emit_frame split: sum.splits)
  have c: "session s = Some x \<Longrightarrow> st = Terminating \<or> st = Terminated \<Longrightarrow>
      opInProgress (snd (sessionListener h x st s)) = OP_NONE"
    by (simp add: sessionListener_terminated emit_frame clearRemoteStream_frame)
  show ?thesis
    using a b c step_op_none [of h c s] by (auto simp add: onAccept_frame onReject_frame register_frame)
qed

text \<open>C1 as stated fails: after \<open>init\<close>, the connect acknowledgment, \<open>register\<close> and the
  transport's acceptance, the call state is \<open>REGISTERED\<close>, a stable state, and the operation in
  progress is \<open>OP_REGISTER\<close>, not \<open>OP_NONE\<close>.\<close>

theorem register_exchange_keeps_operation_counterexample:
  "registered0 = onAccept (register (onConnect (init (new cfg0 None))))
   \<and> callState registered0 = REGISTERED \<and> opInProgress registered0 = OP_REGISTER"
proof -
  have e: "onAccept (register (onConnect (init (new cfg0 None)))) = registered0"
    by (simp add: registered0_def to_registered_def)
  show ?thesis unfolding e by (simp add: registered0_eq)
qed

text \<open>The reset at work: the answered call has \<open>OP_PROCESS_INVITE\<close> in progress, and the
  report that its session is established leaves \<open>OP_NONE\<close>.\<close>

theorem register_exchange_keeps_operation_witness:
  "opInProgress answered0 = OP_PROCESS_INVITE
   \<and> opInProgress (snd (step h0 (StateChange (Inbound alice) Established) answered0)) = OP_NONE
   \<and> session answered0 = Some (Inbound alice)
   \<and> opInProgress (snd (sessionListener h0 (Inbound alice) Established answered0)) = OP_NONE"
proof -
  have a: "session answered0 = Some (Inbound alice)" "opInProgress answered0 = OP_PROCESS_INVITE"
    by (simp_all add: answered0_eq offered0_eq registered0_eq)
  have b: "opInProgress (snd (step h0 (StateChange (Inbound alice) Established) answered0)) = OP_NONE"
    unfolding incall0_step by (simp add: incall0_eq)
  show ?thesis
    using a b
      register_exchange_keeps_operation [of answered0 "''busy''" cfg0 None h0
        "StateChange (Inbound alice) Established" "Inbound alice" Established]
    by simp
qed

subsection \<open>C2: how long the caller info lives\<close>

text \<open>
  C2, as the code has it. In every state the object reaches from its construction, the stored
  caller info is defined whenever the call state is \<open>OFFER_RECEIVED\<close>, \<open>ANSWER_SENT\<close> or
  \<open>IN_CALL\<close>. It is written by an inbound invitation that arrives while the call state is
  \<open>REGISTERED\<close>, from the fields of that invitation, and by nothing else; no call clears it.
  So the converse fails: when the tracked session is terminating or terminated, the call
  state returns to \<open>REGISTERED\<close> and the stored caller info stays. What becomes undefined is
  what the accessor \<open>callerInfo\<close> returns: in every reachable state the accessor returns a
  value, and that value carries caller info exactly when the call state is \<open>IN_CALL\<close>; it is
  then the stored one.
\<close>

theorem callerInfo_lifetime:
  "(callState (run cs (new cfg mr)) = OFFER_RECEIVED \<or> callState (run cs (new cfg mr)) = ANSWER_SENT
      \<or> callState (run cs (new cfg mr)) = IN_CALL \<longrightarrow>
      stored_callerInfo (run cs (new cfg mr)) \<noteq> None)
   \<and> (stored_callerInfo (snd (step h c s)) \<noteq> stored_callerInfo s \<longrightarrow>
        callState s = REGISTERED
        \<and> (\<exists>i. c = OnInvite i
              \<and> stored_callerInfo (snd (step h c s)) =
                  Some \<lparr>callerId = (case uri_user i of None \<Rightarrow> '''' | Some u \<Rightarrow> u),
                        callerName = displayName i, host = uri_host i\<rparr>))
   \<and> (callState s = REGISTERED \<longrightarrow>
        stored_callerInfo (snd (step h (OnInvite invitation) s)) =
          Some \<lparr>callerId = (case uri_user invitation of None \<Rightarrow> '''' | Some u \<Rightarrow> u),
                callerName = displayName invitation, host = uri_host invitation\<rparr>)
   \<and> (stored_callerInfo s \<noteq> None \<longrightarrow> stored_callerInfo (snd (step h c s)) \<noteq> None)
   \<and> (session s = Some x \<and> (st = Terminating \<or> st = Terminated) \<longrightarrow>
        callState (snd (sessionListener h x st s)) = REGISTERED
        \<and> stored_callerInfo (snd (sessionListener h x st s)) = stored_callerInfo s
        \<and> callerInfo (snd (sessionListener h x st s)) =
            Inr \<lparr>state = REGISTERED, callerInfo_of = None, userState_of = UserState_IDLE\<rparr>)
   \<and> (case callerInfo (run cs (new cfg mr)) of
         Inl e \<Rightarrow> False
       | Inr v \<Rightarrow> (callerInfo_of v \<noteq> None) = (callState (run cs (new cfg mr)) = IN_CALL)
                 \<and> (callState (run cs (new cfg mr)) = IN_CALL \<longrightarrow>
                      callerInfo_of v = stored_callerInfo (run cs (new cfg mr))))"
proof -
  have a: "session s = Some x \<Longrightarrow> st = Terminating \<or> st = Terminated \<Longrightarrow>
        callState (snd (sessionListener h x st s)) = REGISTERED
        \<and> stored_callerInfo (snd (sessionListener h x st s)) = stored_callerInfo s
        \<and> userState (snd (sessionListener h x st s)) = UserState_IDLE"
    by (simp add: sessionListener_terminated emit_frame clearRemoteStream_frame)
  have c1: "callState (run cs (new cfg mr)) = OFFER_RECEIVED \<or> callState (run cs (new cfg mr)) = ANSWER_SENT
      \<or> callState (run cs (new cfg mr)) = IN_CALL \<longrightarrow>
      stored_callerInfo (run cs (new cfg mr)) \<noteq> None"
    using reachable_call_has_caller [of cs cfg mr] by (rule impI)
  have c2: "stored_callerInfo (snd (step h c s)) \<noteq> stored_callerInfo s \<longrightarrow>
        callState s = REGISTERED
        \<and> (\<exists>i. c = OnInvite i
              \<and> stored_callerInfo (snd (step h c s)) =
                  Some \<lparr>callerId = (case uri_user i of None \<Rightarrow> '''' | Some u \<Rightarrow> u),
                        callerName = displayName i, host = uri_host i\<rparr>)"
    using step_stored_change [of h c s] by (rule impI)
  have c3: "callState s = REGISTERED \<longrightarrow>
        stored_callerInfo (snd (step h (OnInvite invitation) s)) =
          Some \<lparr>callerId = (case uri_user invitation of None \<Rightarrow> '''' | Some u \<Rightarrow> u),
                callerName = displayName invitation, host = uri_host invitation\<rparr>"
    using handleIncomingCall_stored(1) [of s invitation] by (simp add: onInvite_def)
  have c4: "stored_callerInfo s \<noteq> None \<longrightarrow> stored_callerInfo (snd (step h c s)) \<noteq> None"
    using step_stored [of s h c] by (rule impI)
  have c5: "session s = Some x \<and> (st = Terminating \<or> st = Terminated) \<longrightarrow>
        callState (snd (sessionListener h x st s)) = REGISTERED
        \<and> stored_callerInfo (snd (sessionListener h x st s)) = stored_callerInfo s
        \<and> callerInfo (snd (sessionListener h x st s)) =
            Inr \<lparr>state = REGISTERED, callerInfo_of = None, userState_of = UserState_IDLE\<rparr>"
  proof
    assume p: "session s = Some x \<and> (st = Terminating \<or> st = Terminated)"
    then have q: "callState (snd (sessionListener h x st s)) = REGISTERED
        \<and> stored_callerInfo (snd (sessionListener h x st s)) = stored_callerInfo s
        \<and> userState (snd (sessionListener h x st s)) = UserState_IDLE"
      using a by simp
    then show "callState (snd (sessionListener h x st s)) = REGISTERED
        \<and> stored_callerInfo (snd (sessionListener h x st s)) = stored_callerInfo s
        \<and> callerInfo (snd (sessionListener h x st s)) =
            Inr \<lparr>state = REGISTERED, callerInfo_of = None, userState_of = UserState_IDLE\<rparr>"
      by (simp add: callerInfo_def)
  qed
  have c6: "case callerInfo (run cs (new cfg mr)) of
         Inl e \<Rightarrow> False
       | Inr v \<Rightarrow> (callerInfo_of v \<noteq> None) = (callState (run cs (new cfg mr)) = IN_CALL)
                 \<and> (callState (run cs (new cfg mr)) = IN_CALL \<longrightarrow>
                      callerInfo_of v = stored_callerInfo (run cs (new cfg mr)))"
    using reachable_callerInfo [of cs cfg mr]
    by (auto simp add: callerInfo_def split: option.splits)
  show ?thesis by (intro conjI c1 c2 c3 c4 c5 c6)
qed

text \<open>C2 as stated fails: after a call that was offered, answered, established and
  terminated, the call state is \<open>REGISTERED\<close> and the stored caller info is still the caller's.\<close>

theorem callerInfo_lifetime_counterexample:
  "callState ended0 = REGISTERED
   \<and> stored_callerInfo ended0 =
       Some \<lparr>callerId = ''alice'', callerName = ''Alice'', host = ''example.com''\<rparr>"
  by (simp add: ended0_eq incall0_eq answered0_eq offered0_eq registered0_eq)

text \<open>Alice's invitation to the registered object, the offered call, the established call
  and its termination.\<close>

theorem callerInfo_lifetime_witness:
  "callState offered0 = OFFER_RECEIVED
   \<and> stored_callerInfo offered0 =
        Some \<lparr>callerId = ''alice'', callerName = ''Alice'', host = ''example.com''\<rparr>
   \<and> callState registered0 = REGISTERED \<and> stored_callerInfo registered0 = None
   \<and> stored_callerInfo (snd (step h0 (OnInvite alice) registered0)) =
        Some \<lparr>callerId = ''alice'', callerName = ''Alice'', host = ''example.com''\<rparr>
   \<and> stored_callerInfo incall0 \<noteq> None
   \<and> stored_callerInfo (snd (step h0 (StateChange (Inbound alice) Terminated) incall0)) \<noteq> None
   \<and> session incall0 = Some (Inbound alice)
   \<and> callState (snd (sessionListener h0 (Inbound alice) Terminated incall0)) = REGISTERED
   \<and> callerInfo (snd (sessionListener h0 (Inbound alice) Terminated incall0)) =
        Inr \<lparr>state = REGISTERED, callerInfo_of = None, userState_of = UserState_IDLE\<rparr>
   \<and> callState incall0 = IN_CALL
   \<and> callerInfo incall0 =
        Inr \<lparr>state = IN_CALL,
             callerInfo_of = Some \<lparr>callerId = ''alice'', callerName = ''Alice'', host = ''example.com''\<rparr>,
             userState_of = UAS\<rparr>"
proof -
  have a: "stored_callerInfo incall0 =
             Some \<lparr>callerId = ''alice'', callerName = ''Alice'', host = ''example.com''\<rparr>"
    "session incall0 = Some (Inbound alice)" "callState incall0 = IN_CALL" "userState incall0 = UAS"
    by (simp_all add: incall0_eq answered0_eq offered0_eq registered0_eq)
  have r: "run (to_answered @ [(h0, StateChange (Inbound alice) Established)]) (new cfg0 None) = incall0"
    "run (to_registered @ [(h0, OnInvite alice)]) (new cfg0 None) = offered0"
    by (simp_all add: incall0_def offered0_def)
  have i: "uri_user alice = Some ''alice''" "displayName alice = ''Alice''" "uri_host alice = ''example.com''"
    by (simp_all add: alice_def)
  note t1 = callerInfo_lifetime [of "to_answered @ [(h0, StateChange (Inbound alice) Established)]"
      cfg0 None h0 "StateChange (Inbound alice) Terminated" incall0 alice "Inbound alice" Terminated,
      unfolded r]
  note t2 = callerInfo_lifetime [of "to_registered @ [(h0, OnInvite alice)]" cfg0 None
      h0 "OnInvite alice" registered0 alice "Inbound alice" Terminated, unfolded r]
  have w1: "stored_callerInfo offered0 \<noteq> None"
    using t2 [THEN conjunct1] example_fields(6) by simp
  have w3: "stored_callerInfo (snd (step h0 (OnInvite alice) registered0)) =
        Some \<lparr>callerId = ''alice'', callerName = ''Alice'', host = ''example.com''\<rparr>"
    using t2 [THEN conjunct2, THEN conjunct2, THEN conjunct1] example_fields(4) i
    by (simp del: step.simps)
  have w4: "stored_callerInfo (snd (step h0 (StateChange (Inbound alice) Terminated) incall0)) \<noteq> None"
    using t1 [THEN conjunct2, THEN conjunct2, THEN conjunct2, THEN conjunct1] a(1)
    by (simp del: step.simps)
  have w5: "callState (snd (sessionListener h0 (Inbound alice) Terminated incall0)) = REGISTERED
    \<and> callerInfo (snd (sessionListener h0 (Inbound alice) Terminated incall0)) =
        Inr \<lparr>state = REGISTERED, callerInfo_of = None, userState_of = UserState_IDLE\<rparr>"
    using t1 [THEN conjunct2, THEN conjunct2, THEN conjunct2, THEN conjunct2, THEN conjunct1] a(2)
    by simp
  have w6: "callerInfo incall0 =
        Inr \<lparr>state = IN_CALL,
             callerInfo_of = Some \<lparr>callerId = ''alice'', callerName = ''Alice'', host = ''example.com''\<rparr>,
             userState_of = UAS\<rparr>"
    by (simp add: callerInfo_def a)
  show ?thesis
    using w1 w3 w4 w5 w6 a example_fields by simp
qed

subsection \<open>C3: reading the caller info outside a call\<close>

text \<open>
  C3, as the code has it. Reading the accessor \<open>callerInfo\<close> while the call state is not
  \<open>IN_CALL\<close> succeeds: it returns the call state and the user state, without caller info. The
  access fails exactly when the call state is \<open>IN_CALL\<close> and no caller info is stored.
\<close>

theorem callerInfo_outside_call:
  "(callState s \<noteq> IN_CALL \<longrightarrow>
      callerInfo s = Inr \<lparr>state = callState s, callerInfo_of = None, userState_of = userState s\<rparr>)
   \<and> (isl (callerInfo s) = (callState s = IN_CALL \<and> stored_callerInfo s = None))"
  by (simp add: callerInfo_def split: option.splits)

text \<open>C3 as stated fails: on the object just constructed, whose call state is \<open>IDLE\<close>, the
  accessor returns a value.\<close>

theorem callerInfo_outside_call_counterexample:
  "callState (new cfg0 None) \<noteq> IN_CALL \<and>
   callerInfo (new cfg0 None) = Inr \<lparr>state = IDLE, callerInfo_of = None, userState_of = UserState_IDLE\<rparr>"
  by (simp add: callerInfo_def new_def)

text \<open>The registered object.\<close>

theorem callerInfo_outside_call_witness:
  "callState registered0 \<noteq> IN_CALL
   \<and> callerInfo registered0 =
       Inr \<lparr>state = REGISTERED, callerInfo_of = None, userState_of = UserState_IDLE\<rparr>"
proof -
  have r: "callState registered0 = REGISTERED" "userState registered0 = UserState_IDLE"
    by (simp_all add: registered0_eq)
  show ?thesis using r callerInfo_outside_call [of registered0] by simp
qed

subsection \<open>C4: commands issued in the wrong state\<close>

text \<open>
  C4, as the code has it. Every guard violation on a command is reported as an error.
  \<open>acceptCall\<close> with a call state other than \<open>OFFER_RECEIVED\<close>, or with an operation in progress
  other than \<open>OP_PROCESS_INVITE\<close>, always fails; it sends nothing and writes no field but one:
  the media renderer, when the caller passes one, replaces the renderer of the object before
  the guard is tested. \<open>rejectCall\<close> fails when no session is tracked, when the call state is
  not \<open>OFFER_RECEIVED\<close>, and when the session is not an invitation; \<open>endCall\<close> fails when no
  session is tracked, when the call state is neither \<open>ANSWER_SENT\<close> nor \<open>IN_CALL\<close>, and when a
  session that is not yet established is not an invitation. In each of these cases the error
  names the violated guard and the object is left exactly as it was; whenever \<open>rejectCall\<close> or
  \<open>endCall\<close> fails, nothing has been written. With their guards satisfied \<open>rejectCall\<close> and
  \<open>acceptCall\<close> do not fail.
\<close>

theorem guard_violations:
  "(callState s \<noteq> OFFER_RECEIVED \<or> opInProgress s \<noteq> OP_PROCESS_INVITE \<longrightarrow>
      acceptCall mr s =
        (Inl SomethingWentWrong,
         case mr of None \<Rightarrow> s | Some r \<Rightarrow> s\<lparr>mediaStreamRendered := Some r\<rparr>))
   \<and> (session s = None \<longrightarrow> rejectCall s = (Inl SessionDoesNotExist, s))
   \<and> (session s = Some x \<and> callState s \<noteq> OFFER_RECEIVED \<longrightarrow>
        rejectCall s = (Inl (IncorrectCallState (callState s)), s))
   \<and> (session s = Some (OtherSession n) \<and> callState s = OFFER_RECEIVED \<longrightarrow>
        rejectCall s = (Inl SessionNotInstanceOfInvitation, s))
   \<and> (session s = None \<longrightarrow> endCall h s = (Inl SessionDoesNotExist, s))
   \<and> (session s = Some x \<and> callState s \<noteq> ANSWER_SENT \<and> callState s \<noteq> IN_CALL \<longrightarrow>
        endCall h s = (Inl (IncorrectCallState (callState s)), s))
   \<and> (session s = Some (OtherSession n) \<and> (callState s = ANSWER_SENT \<or> callState s = IN_CALL)
        \<and> (state_of h (OtherSession n) = Initial \<or> state_of h (OtherSession n) = Establishing) \<longrightarrow>
        endCall h s = (Inl SessionNotInstanceOfInvitation, s))
   \<and> (fst (rejectCall s) = Inl e \<longrightarrow> snd (rejectCall s) = s)
   \<and> (fst (endCall h s) = Inl e \<longrightarrow> snd (endCall h s) = s)
   \<and> (session s = Some (Inbound i) \<and> callState s = OFFER_RECEIVED \<longrightarrow>
        rejectCall s = (Inr (), s\<lparr>effects := effects s @ [Invitation_reject (Inbound i)]\<rparr>))
   \<and> (session s = Some (Inbound i) \<and> callState s = OFFER_RECEIVED
        \<and> opInProgress s = OP_PROCESS_INVITE \<longrightarrow>
        fst (acceptCall mr s) = Inr () \<and> callState (snd (acceptCall mr s)) = ANSWER_SENT)"
  using acceptCall_guard [of s mr] rejectCall_guard [of s e] endCall_guard [of h s e]
    rejectCall_cases(1) [of s] rejectCall_cases(2) [of s x] rejectCall_cases(3) [of s n]
    rejectCall_cases(4) [of s i]
    endCall_cases(1) [of s h] endCall_cases(2) [of s x h] endCall_cases(3) [of s n h]
    acceptCall_ok [of s i mr]
  by blast

text \<open>C4 as stated fails: \<open>acceptCall\<close> with a renderer, on the object just constructed, fails
  and has replaced the renderer of the object.\<close>

theorem guard_violations_counterexample:
  "callState (new cfg0 None) \<noteq> OFFER_RECEIVED
   \<and> fst (acceptCall (Some screen0) (new cfg0 None)) = Inl SomethingWentWrong
   \<and> mediaStreamRendered (new cfg0 None) = None
   \<and> mediaStreamRendered (snd (acceptCall (Some screen0) (new cfg0 None))) = Some screen0"
  by (simp add: acceptCall_def new_def)

text \<open>Each guard violated once: on the object just constructed, on the answered and the
  offered call, and on two states whose session is not an invitation; then the offered call,
  which satisfies the guards of \<open>rejectCall\<close> and \<open>acceptCall\<close>.\<close>

theorem guard_violations_witness:
  "callState (new cfg0 None) \<noteq> OFFER_RECEIVED
   \<and> acceptCall (Some screen0) (new cfg0 None) =
        (Inl SomethingWentWrong, (new cfg0 None)\<lparr>mediaStreamRendered := Some screen0\<rparr>)
   \<and> acceptCall None (new cfg0 None) = (Inl SomethingWentWrong, new cfg0 None)
   \<and> session (new cfg0 None) = None
   \<and> rejectCall (new cfg0 None) = (Inl SessionDoesNotExist, new cfg0 None)
   \<and> endCall h0 (new cfg0 None) = (Inl SessionDoesNotExist, new cfg0 None)
   \<and> session answered0 = Some (Inbound alice) \<and> callState answered0 = ANSWER_SENT
   \<and> rejectCall answered0 = (Inl (IncorrectCallState ANSWER_SENT), answered0)
   \<and> session offered0 = Some (Inbound alice) \<and> callState offered0 = OFFER_RECEIVED
   \<and> endCall h0 offered0 = (Inl (IncorrectCallState OFFER_RECEIVED), offered0)
   \<and> session foreign_offered0 = Some (OtherSession 5) \<and> callState foreign_offered0 = OFFER_RECEIVED
   \<and> rejectCall foreign_offered0 = (Inl SessionNotInstanceOfInvitation, foreign_offered0)
   \<and> session foreign_answered0 = Some (OtherSession 5) \<and> callState foreign_answered0 = ANSWER_SENT
   \<and> state_of h2 (OtherSession 5) = Initial
   \<and> endCall h2 foreign_answered0 = (Inl SessionNotInstanceOfInvitation, foreign_answered0)
   \<and> rejectCall offered0 =
        (Inr (), offered0\<lparr>effects := effects offered0 @ [Invitation_reject (Inbound alice)]\<rparr>)
   \<and> opInProgress offered0 = OP_PROCESS_INVITE
   \<and> fst (acceptCall None offered0) = Inr ()
   \<and> callState (snd (acceptCall None offered0)) = ANSWER_SENT"
proof -
  have g: "state_of h2 (OtherSession 5) = Initial" by (simp add: h2_def)
  show ?thesis
    using g foreign_fields example_fields
      guard_violations [of "new cfg0 None" "Some screen0" "Inbound alice" 5 h0 SessionDoesNotExist alice]
      guard_violations [of "new cfg0 None" None "Inbound alice" 5 h0 SessionDoesNotExist alice]
      guard_violations [of answered0 None "Inbound alice" 5 h0 "IncorrectCallState ANSWER_SENT" alice]
      guard_violations [of offered0 None "Inbound alice" 5 h0 "IncorrectCallState OFFER_RECEIVED" alice]
      guard_violations [of foreign_offered0 None "OtherSession 5" 5 h0 SessionNotInstanceOfInvitation alice]
      guard_violations [of foreign_answered0 None "OtherSession 5" 5 h2 SessionNotInstanceOfInvitation alice]
    by simp
qed

subsection \<open>C5: an inbound invitation\<close>

text \<open>
  C5. An invitation that arrives while the call state is \<open>REGISTERED\<close> sets the operation in
  progress to \<open>OP_PROCESS_INVITE\<close>, the call state to \<open>OFFER_RECEIVED\<close>, the user state to
  \<open>UAS\<close>, tracks the invitation and listens to it, stores the caller info read from the
  invitation, and emits \<open>incomingcall\<close> and then \<open>stateChanged\<close>. In any other call state the
  invitation is rejected, nothing is emitted and no field is written.
\<close>

theorem handleIncomingCall_spec:
  "(callState s = REGISTERED \<longrightarrow>
      (let ci = \<lparr>callerId = (case uri_user invitation of None \<Rightarrow> '''' | Some u \<Rightarrow> u),
                 callerName = displayName invitation, host = uri_host invitation\<rparr>
       in handleIncomingCall invitation s =
            s\<lparr>opInProgress := OP_PROCESS_INVITE, callState := OFFER_RECEIVED, userState := UAS,
              session := Some (Inbound invitation), stored_callerInfo := Some ci,
              stateChangeListeners :=
                stateChangeListeners s @ [(Inbound invitation, Inbound invitation)],
              effects := effects s @ [Emitted (incomingcall ci), Emitted stateChanged]\<rparr>))
   \<and> (callState s \<noteq> REGISTERED \<longrightarrow>
        handleIncomingCall invitation s =
          s\<lparr>effects := effects s @ [Invitation_reject (Inbound invitation)]\<rparr>)"
  by (simp add: handleIncomingCall_def setupSessionEventHandlers_def emit_def Let_def split: option.splits)

text \<open>Alice's invitation, to the registered object and to the object just constructed.\<close>

theorem handleIncomingCall_spec_witness:
  "callState registered0 = REGISTERED
   \<and> callState (handleIncomingCall alice registered0) = OFFER_RECEIVED
   \<and> opInProgress (handleIncomingCall alice registered0) = OP_PROCESS_INVITE
   \<and> userState (handleIncomingCall alice registered0) = UAS
   \<and> stored_callerInfo (handleIncomingCall alice registered0) =
        Some \<lparr>callerId = ''alice'', callerName = ''Alice'', host = ''example.com''\<rparr>
   \<and> effects (handleIncomingCall alice registered0) =
        effects registered0 @
          [Emitted (incomingcall \<lparr>callerId = ''alice'', callerName = ''Alice'', host = ''example.com''\<rparr>),
           Emitted stateChanged]
   \<and> callState (new cfg0 None) \<noteq> REGISTERED
   \<and> handleIncomingCall alice (new cfg0 None) =
        (new cfg0 None)\<lparr>effects := [Invitation_reject (Inbound alice)]\<rparr>"
proof -
  have r: "callState registered0 = REGISTERED" by (simp add: registered0_eq)
  have i: "callState (new cfg0 None) \<noteq> REGISTERED" by (simp add: new_def)
  have e: "effects (new cfg0 None) = []" by (simp add: new_def)
  have a: "uri_user alice = Some ''alice''" "displayName alice = ''Alice''" "uri_host alice = ''example.com''"
    by (simp_all add: alice_def)
  show ?thesis
    using r i e a handleIncomingCall_spec [of registered0 alice]
      handleIncomingCall_spec [of "new cfg0 None" alice]
    by (simp add: Let_def)
qed

subsection \<open>C6: ending a call\<close>

text \<open>
  C6. In every state the object reaches from its construction, \<open>endCall\<close> with a tracked
  session and a call state \<open>ANSWER_SENT\<close> or \<open>IN_CALL\<close> succeeds and writes no field; it sends
  a reject while the session is initial or establishing, a bye once it is established, and
  nothing when it is terminating or terminated. Without a session, or in any other call state,
  \<open>endCall\<close> fails and leaves the object as it was.
\<close>

theorem endCall_dispatch:
  "(session (run cs (new cfg mr)) = Some x
      \<and> (callState (run cs (new cfg mr)) = ANSWER_SENT \<or> callState (run cs (new cfg mr)) = IN_CALL) \<longrightarrow>
      endCall h (run cs (new cfg mr)) =
        (Inr (), (run cs (new cfg mr))
           \<lparr>effects := effects (run cs (new cfg mr)) @
              (case state_of h x of
                 Initial \<Rightarrow> [Invitation_reject x]
               | Establishing \<Rightarrow> [Invitation_reject x]
               | Established \<Rightarrow> [Session_bye x]
               | Terminating \<Rightarrow> []
               | Terminated \<Rightarrow> [])\<rparr>))
   \<and> (session s = None \<or> (callState s \<noteq> ANSWER_SENT \<and> callState s \<noteq> IN_CALL) \<longrightarrow>
        endCall h s =
          (Inl (if session s = None then SessionDoesNotExist else IncorrectCallState (callState s)), s))"
proof -
  have a: "session s = None \<or> (callState s \<noteq> ANSWER_SENT \<and> callState s \<noteq> IN_CALL) \<Longrightarrow>
        endCall h s =
          (Inl (if session s = None then SessionDoesNotExist else IncorrectCallState (callState s)), s)"
    by (auto simp add: endCall_def split: option.splits)
  have b: "\<And>t i. session t = Some (Inbound i) \<Longrightarrow> callState t = ANSWER_SENT \<or> callState t = IN_CALL \<Longrightarrow>
      endCall h t =
        (Inr (), t\<lparr>effects := effects t @
              (case state_of h (Inbound i) of
                 Initial \<Rightarrow> [Invitation_reject (Inbound i)]
               | Establishing \<Rightarrow> [Invitation_reject (Inbound i)]
               | Established \<Rightarrow> [Session_bye (Inbound i)]
               | Terminating \<Rightarrow> []
               | Terminated \<Rightarrow> [])\<rparr>)"
    by (auto simp add: endCall_def split: SessionState.splits)
  have c: "session (run cs (new cfg mr)) = Some x \<Longrightarrow> \<exists>i. x = Inbound i"
    using reachable_session [of cs cfg mr] by (cases x) auto
  show ?thesis using a b c by blast
qed

text \<open>The answered call, ended while its session is established, establishing and
  terminated; the registered object, which tracks no session; the offered call, whose call
  state is \<open>OFFER_RECEIVED\<close>.\<close>

theorem endCall_dispatch_witness:
  "session answered0 = Some (Inbound alice) \<and> callState answered0 = ANSWER_SENT
   \<and> endCall h0 answered0 =
        (Inr (), answered0\<lparr>effects := effects answered0 @ [Session_bye (Inbound alice)]\<rparr>)
   \<and> endCall h1 answered0 =
        (Inr (), answered0\<lparr>effects := effects answered0 @ [Invitation_reject (Inbound alice)]\<rparr>)
   \<and> endCall h3 answered0 = (Inr (), answered0)
   \<and> session registered0 = None
   \<and> endCall h0 registered0 = (Inl SessionDoesNotExist, registered0)
   \<and> callState offered0 = OFFER_RECEIVED
   \<and> endCall h0 offered0 = (Inl (IncorrectCallState OFFER_RECEIVED), offered0)"
proof -
  have a: "session answered0 = Some (Inbound alice)" "callState answered0 = ANSWER_SENT"
    by (simp_all add: answered0_eq offered0_eq registered0_eq)
  have b: "session registered0 = None" by (simp add: registered0_eq)
  have c: "session offered0 = Some (Inbound alice)" "callState offered0 = OFFER_RECEIVED"
    by (simp_all add: offered0_eq registered0_eq)
  have r: "run to_answered (new cfg0 None) = answered0" by (simp add: answered0_def)
  have h: "state_of h0 (Inbound alice) = Established" "state_of h1 (Inbound alice) = Establishing"
    "state_of h3 (Inbound alice) = Terminated"
    by (simp_all add: h0_def h1_def h3_def)
  show ?thesis
    using a b c h
      endCall_dispatch [of to_answered cfg0 None "Inbound alice" h0 registered0]
      endCall_dispatch [of to_answered cfg0 None "Inbound alice" h1 offered0]
      endCall_dispatch [of to_answered cfg0 None "Inbound alice" h3 offered0]
      endCall_dispatch [of to_answered cfg0 None "Inbound alice" h0 offered0]
    unfolding r by simp
qed

subsection \<open>C7: callbacks of a superseded session\<close>

text \<open>
  C7. A listener whose session is not the tracked one returns at once and writes nothing. In
  every state the object reaches from its construction, a state change that the SIP library
  reports for a session other than the tracked one, whatever the new state, leaves the object
  as it was and emits nothing.
\<close>

theorem stale_callback_discarded:
  "(session s \<noteq> Some sess \<longrightarrow> sessionListener h sess st s = (Inr (), s))
   \<and> (session (run cs (new cfg mr)) \<noteq> Some x \<longrightarrow>
        stateChange h x st (run cs (new cfg mr)) = (Inr (), run cs (new cfg mr)))"
  using sessionListener_stale [of s sess h st] reachable_stale [of cs cfg mr x h st] by blast

text \<open>Bob's invitation has replaced Alice's, and a report that Alice's session is established
  changes nothing; neither does it once the call has ended and no session is tracked.\<close>

theorem stale_callback_discarded_witness:
  "session replaced0 = Some (Inbound bob) \<and> Inbound bob \<noteq> Inbound alice
   \<and> sessionListener h0 (Inbound alice) Established replaced0 = (Inr (), replaced0)
   \<and> stateChange h0 (Inbound alice) Established replaced0 = (Inr (), replaced0)
   \<and> session ended0 = None
   \<and> stateChange h0 (Inbound alice) Established ended0 = (Inr (), ended0)"
proof -
  have a: "session replaced0 = Some (Inbound bob)"
    by (simp add: replaced0_eq answered0_eq offered0_eq registered0_eq)
  have n: "Inbound bob \<noteq> Inbound alice" by (simp add: alice_def bob_def)
  have e: "session ended0 = None"
    by (simp add: ended0_eq incall0_eq answered0_eq offered0_eq registered0_eq)
  have r: "run to_replaced (new cfg0 None) = replaced0" "run to_ended (new cfg0 None) = ended0"
    by (simp_all add: replaced0_def ended0_def)
  show ?thesis
    using a n e
      stale_callback_discarded [of replaced0 "Inbound alice" h0 Established to_replaced cfg0 None
        "Inbound alice"]
      stale_callback_discarded [of ended0 "Inbound alice" h0 Established to_ended cfg0 None
        "Inbound alice"]
    unfolding r by simp
qed

subsection \<open>C8: attaching the remote media\<close>

text \<open>
  C8, as the code has it. \<open>setupRemoteMedia\<close> raises an error, and writes nothing, when no
  session is tracked, when the session description handler is not the web one, and when the
  handler has no remote stream. When the session has no description handler at all it
  returns without an error and without attaching anything, and the listener goes on to report
  the call as established.
\<close>

theorem setupRemoteMedia_outcomes:
  "(session s = None \<longrightarrow> setupRemoteMedia h s = (Inl SessionDoesNotExist, s))
   \<and> (session s = Some x \<and> sessionDescriptionHandler h x = Some ForeignSDH \<longrightarrow>
        setupRemoteMedia h s = (Inl SDHNotWebSessionDescriptionHandler, s))
   \<and> (session s = Some x \<and> sessionDescriptionHandler h x = Some (WebSDH None) \<longrightarrow>
        setupRemoteMedia h s = (Inl RemoteMediaStreamUndefined, s))
   \<and> (session s = Some x \<and> sessionDescriptionHandler h x = None \<longrightarrow>
        setupRemoteMedia h s = (Inr (), s)
        \<and> sessionListener h x Established s =
            (Inr (), emit stateChanged (emit callestablished
                       (s\<lparr>opInProgress := OP_NONE, callState := IN_CALL\<rparr>))))"
  by (simp add: setupRemoteMedia_def sessionListener_def)

text \<open>C8 as stated fails: for the answered call, whose session has no description handler,
  \<open>setupRemoteMedia\<close> returns without an error.\<close>

theorem setupRemoteMedia_outcomes_counterexample:
  "session answered0 = Some (Inbound alice)
   \<and> sessionDescriptionHandler h1 (Inbound alice) = None
   \<and> setupRemoteMedia h1 answered0 = (Inr (), answered0)"
  by (simp add: setupRemoteMedia_def answered0_eq offered0_eq registered0_eq h1_def)

text \<open>The four cases, on the registered object and on the answered call.\<close>

theorem setupRemoteMedia_outcomes_witness:
  "session registered0 = None
   \<and> setupRemoteMedia h0 registered0 = (Inl SessionDoesNotExist, registered0)
   \<and> session answered0 = Some (Inbound alice)
   \<and> sessionDescriptionHandler h2 (Inbound alice) = Some ForeignSDH
   \<and> setupRemoteMedia h2 answered0 = (Inl SDHNotWebSessionDescriptionHandler, answered0)
   \<and> sessionDescriptionHandler h3 (Inbound alice) = Some (WebSDH None)
   \<and> setupRemoteMedia h3 answered0 = (Inl RemoteMediaStreamUndefined, answered0)
   \<and> sessionDescriptionHandler h1 (Inbound alice) = None
   \<and> setupRemoteMedia h1 answered0 = (Inr (), answered0)
   \<and> callState (snd (sessionListener h1 (Inbound alice) Established answered0)) = IN_CALL
   \<and> remoteStream (snd (sessionListener h1 (Inbound alice) Established answered0)) = None"
proof -
  have r: "session registered0 = None" by (simp add: registered0_eq)
  have a: "session answered0 = Some (Inbound alice)" "remoteStream answered0 = None"
    by (simp_all add: answered0_eq offered0_eq registered0_eq)
  have h: "sessionDescriptionHandler h2 (Inbound alice) = Some ForeignSDH"
    "sessionDescriptionHandler h3 (Inbound alice) = Some (WebSDH None)"
    "sessionDescriptionHandler h1 (Inbound alice) = None"
    by (simp_all add: h1_def h2_def h3_def)
  show ?thesis
    using r a h setupRemoteMedia_outcomes [of registered0 h0 "Inbound alice"]
      setupRemoteMedia_outcomes [of answered0 h2 "Inbound alice"]
      setupRemoteMedia_outcomes [of answered0 h3 "Inbound alice"]
      setupRemoteMedia_outcomes [of answered0 h1 "Inbound alice"]
    by (simp add: emit_def)
qed

subsection \<open>C9: register and unregister before the connect acknowledgment\<close>

text \<open>
  C9. While no registerer exists, \<open>register\<close> and \<open>unregister\<close> record \<open>OP_REGISTER\<close> and
  \<open>OP_UNREGISTER\<close> as the operation in progress and do nothing else: no command goes to the
  transport and no event is emitted, and neither method can fail. No registerer exists as
  long as the transport has not acknowledged the connection.
\<close>

theorem register_without_registerer:
  "(registerer s = None \<longrightarrow>
      register s = s\<lparr>opInProgress := OP_REGISTER\<rparr>
      \<and> unregister s = s\<lparr>opInProgress := OP_UNREGISTER\<rparr>)
   \<and> (OnConnect \<notin> snd ` set cs \<longrightarrow> registerer (run cs (new cfg mr)) = None)"
  using run_registerer [of cs "new cfg mr"]
  by (simp add: register_def unregister_def new_fields)

text \<open>\<open>register\<close> right after \<open>init\<close>: the only effect so far is the start of the user agent.\<close>

theorem register_without_registerer_witness:
  "registerer (init (new cfg0 None)) = None
   \<and> register (init (new cfg0 None)) = (init (new cfg0 None))\<lparr>opInProgress := OP_REGISTER\<rparr>
   \<and> unregister (init (new cfg0 None)) = (init (new cfg0 None))\<lparr>opInProgress := OP_UNREGISTER\<rparr>
   \<and> effects (register (init (new cfg0 None))) = [UserAgent_start]
   \<and> OnConnect \<notin> snd ` set [(h0, Init), (h0, Register)]
   \<and> registerer (run [(h0, Init), (h0, Register)] (new cfg0 None)) = None"
proof -
  have a: "registerer (init (new cfg0 None)) = None" "effects (init (new cfg0 None)) = [UserAgent_start]"
    by (simp_all add: init_def new_def)
  have b: "OnConnect \<notin> snd ` set [(h0, Init), (h0, Register)]" by simp
  show ?thesis
    using a b
      register_without_registerer [of "init (new cfg0 None)" "[(h0, Init), (h0, Register)]" cfg0 None]
    by simp
qed

subsection \<open>C10: a disconnect without an error\<close>

text \<open>
  C10. When the transport reports a disconnect without an error, the object is left exactly
  as it was: no event is emitted and no field changes, \<open>isReady\<close> included.
\<close>

theorem onDisconnect_clean: "onDisconnect None s = s"
  by (simp add: onDisconnect_def)

end
